theory Spec2Isabelle
  imports Main "HOL-Library.Sublist"
begin

section \<open>JavaScript strings\<close>

text \<open>
  A JavaScript string is modelled as a \<^typ>\<open>string\<close>, one \<^typ>\<open>char\<close> per code unit,
  for code units below 256 (ASCII and Latin-1). The functions below are the string
  methods that \<^verbatim>\<open>AIPairRunner.js\<close> calls.
\<close>

text \<open>\<^verbatim>\<open>String.prototype.toLowerCase\<close> on one code unit: A-Z and the Latin-1 capitals
  (0xC0-0xDE without the multiplication sign 0xD7) move up by 32, all others stay.\<close>

definition toLowerCaseChar :: "char \<Rightarrow> char" where
  "toLowerCaseChar c =
     (let n = (of_char c :: nat)
      in if (65 \<le> n \<and> n \<le> 90) \<or> (192 \<le> n \<and> n \<le> 222 \<and> n \<noteq> 215)
         then char_of (n + 32) else c)"

definition toLowerCase :: "string \<Rightarrow> string" where
  "toLowerCase s = map toLowerCaseChar s"

definition isUpperLetter :: "char \<Rightarrow> bool" where
  "isUpperLetter c =
     (let n = (of_char c :: nat)
      in (65 \<le> n \<and> n \<le> 90) \<or> (192 \<le> n \<and> n \<le> 222 \<and> n \<noteq> 215))"

definition isLowerLetter :: "char \<Rightarrow> bool" where
  "isLowerLetter c =
     (let n = (of_char c :: nat)
      in (97 \<le> n \<and> n \<le> 122) \<or> n = 181 \<or> (223 \<le> n \<and> n \<le> 255 \<and> n \<noteq> 247))"

text \<open>\<^verbatim>\<open>s.split(c)\<close> for a one-character separator: never empty, \<^verbatim>\<open>''.split('.')\<close>
  is \<^verbatim>\<open>['']\<close>.\<close>

fun split_on :: "char \<Rightarrow> string \<Rightarrow> string list" where
  "split_on c [] = [[]]"
| "split_on c (x # xs) =
     (if x = c then [] # split_on c xs
      else (case split_on c xs of
              [] \<Rightarrow> [[x]]
            | y # ys \<Rightarrow> (x # y) # ys))"

text \<open>\<^verbatim>\<open>parts.join(sep)\<close>.\<close>

fun js_join :: "string \<Rightarrow> string list \<Rightarrow> string" where
  "js_join sep [] = []"
| "js_join sep [x] = x"
| "js_join sep (x # y # ys) = x @ sep @ js_join sep (y # ys)"

text \<open>\<^verbatim>\<open>test.match(/\(([^)]+)\)/)\<close>: the first opening parenthesis that is followed by
  one character or more other than the closing parenthesis and then by a closing
  parenthesis; the result is capture group 1, \<open>None\<close> when the match is null.\<close>

fun matchParen :: "string \<Rightarrow> string option" where
  "matchParen [] = None"
| "matchParen (c # cs) =
     (if c = CHR ''(''
         \<and> takeWhile (\<lambda>d. d \<noteq> CHR '')'') cs \<noteq> []
         \<and> dropWhile (\<lambda>d. d \<noteq> CHR '')'') cs \<noteq> []
      then Some (takeWhile (\<lambda>d. d \<noteq> CHR '')'') cs)
      else matchParen cs)"

section \<open>FailureExtractor: from a failing test to its class\<close>

text \<open>Lines 121-139 of \<^verbatim>\<open>performCodeGenerationCycle\<close>: the body of the
  \<^verbatim>\<open>failedTests.map\<close> callback up to the class name.\<close>

definition extractClassName :: "string \<Rightarrow> string" where
  "extractClassName test =
     (let className =
            (if CHR ''('' \<in> set test
             then (case matchParen test of Some m \<Rightarrow> m | None \<Rightarrow> test)
             else test);
          parts = split_on CHR ''.'' className;
          lastPart = last parts
      in if lastPart \<noteq> [] \<and> hd lastPart = toLowerCaseChar (hd lastPart)
         then js_join ''.'' (butlast parts)
         else className)"


section \<open>Node's path.join (POSIX flavour)\<close>

text \<open>
  \<^verbatim>\<open>path.join\<close> joins its non-empty arguments with a slash and normalises the result:
  empty segments and \<^verbatim>\<open>.\<close> vanish, \<^verbatim>\<open>..\<close> removes the segment before it (and is kept
  in front of a relative path), a trailing slash survives. The segments of the result
  are kept in a list, in order, while the input segments are consumed.
\<close>

fun normalizeSegments :: "bool \<Rightarrow> string list \<Rightarrow> string list \<Rightarrow> string list" where
  "normalizeSegments allowAboveRoot res [] = res"
| "normalizeSegments allowAboveRoot res (seg # segs) =
     (if seg = [] \<or> seg = ''.'' then normalizeSegments allowAboveRoot res segs
      else if seg = ''..'' then
        (if res \<noteq> [] \<and> last res \<noteq> ''..''
         then normalizeSegments allowAboveRoot (butlast res) segs
         else if allowAboveRoot
         then normalizeSegments allowAboveRoot (res @ [''..'']) segs
         else normalizeSegments allowAboveRoot res segs)
      else normalizeSegments allowAboveRoot (res @ [seg]) segs)"

definition normalizeString :: "string \<Rightarrow> bool \<Rightarrow> string" where
  "normalizeString p allowAboveRoot =
     js_join ''/'' (normalizeSegments allowAboveRoot [] (split_on CHR ''/'' p))"

definition posix_normalize :: "string \<Rightarrow> string" where
  "posix_normalize p =
     (if p = [] then ''.''
      else
        (let isAbsolute = (hd p = CHR ''/'');
             trailingSeparator = (last p = CHR ''/'');
             q = normalizeString p (\<not> isAbsolute)
         in if q = [] then (if isAbsolute then ''/'' else if trailingSeparator then ''./'' else ''.'')
            else (let q' = (if trailingSeparator then q @ ''/'' else q)
                  in if isAbsolute then CHR ''/'' # q' else q')))"

definition path_join :: "string list \<Rightarrow> string" where
  "path_join args =
     (let joined = filter (\<lambda>arg. arg \<noteq> []) args
      in if joined = [] then ''.'' else posix_normalize (js_join ''/'' joined))"

section \<open>The runner, the world around it and its collaborators\<close>

datatype family = Openai | Anthropic | Gemini

text \<open>The three backend classes; each keeps the API key and the model it was built with.\<close>

datatype client =
    ChatGPTClient string string
  | ClaudeClient string string
  | GeminiClient string string

record sourceFile =
  path :: string
  content :: string

text \<open>What the program does to the world, in the order it does it.\<close>

datatype event =
    ConsoleError string
  | LoggerWarn string
  | RunTests string string
  | SummarizeAllTests string string
  | ReadFile string
  | ExistsSync string
  | CollectFiles "string list" string
  | AppendFile string string
  | GenerateCode client string string string
  | ApplyGeneratedCode string string string string
  | ClearDirectory string
  | Watch "string list"
  | ProcessExit nat

text \<open>
  The fields of \<^verbatim>\<open>this\<close> as the constructor sets them (\<open>client\<close> and
  \<open>buildGradleContent\<close> are undefined until \<^verbatim>\<open>run\<close> assigns them), then the world:
  the regular files by path, and the events so far. The table \<^verbatim>\<open>this.models\<close> never
  changes and is the constant \<open>models\<close> below. Console and logger output is not
  recorded, except the warning of \<^verbatim>\<open>selectAIClient\<close> and the error lines of
  \<^verbatim>\<open>getApiKeyForModel\<close>; the spinner is not modelled.
\<close>

record state =
  model :: string
  projectRoot :: string
  extension :: string
  testDir :: string
  apiKeys :: "family \<Rightarrow> string option"
  logLevel :: "string option"
  tmpDir :: string
  systemPrompt :: string
  promptTemplate :: string
  accumulatedHints :: "string list"
  client :: "client option"
  buildGradleContent :: "string option"
  files :: "string \<rightharpoonup> string"
  trace :: "event list"

text \<open>
  The functions of \<^verbatim>\<open>lib/TestUtils\<close>, \<^verbatim>\<open>lib/FileUtils\<close>, \<^verbatim>\<open>lib/CodeParser\<close> and
  \<^verbatim>\<open>lib/ai\<close>, with \<^verbatim>\<open>path.relative\<close> and the clock, are parameters: any functions of
  these types. Each is taken to return normally. \<open>toISOString\<close> gives the timestamp of
  the n-th event.
\<close>

record collab =
  runTests :: "string \<Rightarrow> string \<Rightarrow> (string \<rightharpoonup> string) \<Rightarrow> bool \<times> (string \<rightharpoonup> string)"
  summarizeAllTests :: "string \<Rightarrow> string \<Rightarrow> (string \<rightharpoonup> string) \<Rightarrow> string list"
  collectFilesWithExtension :: "string list \<Rightarrow> string \<Rightarrow> (string \<rightharpoonup> string) \<Rightarrow> sourceFile list"
  generateCode :: "client \<Rightarrow> string \<Rightarrow> string \<Rightarrow> string \<Rightarrow> string"
  parseAndApplyGeneratedCode ::
    "string \<Rightarrow> string \<Rightarrow> string \<Rightarrow> string \<Rightarrow> (string \<rightharpoonup> string) \<Rightarrow> (string \<rightharpoonup> string)"
  clearDirectory :: "string \<Rightarrow> (string \<rightharpoonup> string) \<Rightarrow> (string \<rightharpoonup> string)"
  relative :: "string \<Rightarrow> string \<Rightarrow> string"
  toISOString :: "nat \<Rightarrow> string"

text \<open>
  How a call ends: it returns a value, throws, ends the process with an exit code, or
  waits for a line of input that never comes.
\<close>

datatype 'a outcome = Returned 'a | Threw string | Exited nat | Blocked

datatype js_value = JSUndefined | JSBool bool

text \<open>Sequencing: the rest runs only after a normal return.\<close>

definition andThen ::
  "'a outcome \<times> state \<Rightarrow> ('a \<Rightarrow> state \<Rightarrow> 'b outcome \<times> state) \<Rightarrow> 'b outcome \<times> state" where
  "andThen r k =
     (case r of
        (Returned v, s) \<Rightarrow> k v s
      | (Threw e, s) \<Rightarrow> (Threw e, s)
      | (Exited n, s) \<Rightarrow> (Exited n, s)
      | (Blocked, s) \<Rightarrow> (Blocked, s))"

definition emit :: "event list \<Rightarrow> state \<Rightarrow> state" where
  "emit es s = s\<lparr>trace := trace s @ es\<rparr>"

definition readFileSync :: "string \<Rightarrow> state \<Rightarrow> string outcome \<times> state" where
  "readFileSync p s =
     (case files s p of
        None \<Rightarrow> (Threw ''ENOENT'', emit [ReadFile p] s)
      | Some t \<Rightarrow> (Returned t, emit [ReadFile p] s))"

definition appendFileSync :: "string \<Rightarrow> string \<Rightarrow> state \<Rightarrow> state" where
  "appendFileSync p t s =
     emit [AppendFile p t]
       (s\<lparr>files := (files s)(p \<mapsto> (case files s p of None \<Rightarrow> t | Some old \<Rightarrow> old @ t))\<rparr>)"


section \<open>Prompt rendering\<close>

text \<open>
  \<^verbatim>\<open>template.replace(pattern, replacement)\<close> with two strings: only the first
  occurrence is replaced, and in the replacement \<^verbatim>\<open>$$\<close> stands for a dollar,
  \<^verbatim>\<open>$&\<close> for the matched text, \<^verbatim>\<open>$`\<close> for the text before the match and \<^verbatim>\<open>$'\<close> for
  the text after it. A string pattern has no capture groups, so a dollar before
  anything else stays.
\<close>

fun splitAtFirst :: "string \<Rightarrow> string \<Rightarrow> (string \<times> string) option" where
  "splitAtFirst pat [] = (if pat = [] then Some ([], []) else None)"
| "splitAtFirst pat (c # cs) =
     (if prefix pat (c # cs) then Some ([], drop (length pat) (c # cs))
      else map_option (\<lambda>(preceding, following). (c # preceding, following))
             (splitAtFirst pat cs))"

fun getSubstitution :: "string \<Rightarrow> string \<Rightarrow> string \<Rightarrow> string \<Rightarrow> string" where
  "getSubstitution matched preceding following [] = []"
| "getSubstitution matched preceding following [c] = [c]"
| "getSubstitution matched preceding following (c # d # r) =
     (if c = CHR ''$'' \<and> d = CHR ''$''
      then CHR ''$'' # getSubstitution matched preceding following r
      else if c = CHR ''$'' \<and> d = CHR ''&''
      then matched @ getSubstitution matched preceding following r
      else if c = CHR ''$'' \<and> d = CHR 0x60
      then preceding @ getSubstitution matched preceding following r
      else if c = CHR ''$'' \<and> d = CHR 0x27
      then following @ getSubstitution matched preceding following r
      else c # getSubstitution matched preceding following (d # r))"

definition js_replace :: "string \<Rightarrow> string \<Rightarrow> string \<Rightarrow> string" where
  "js_replace str pat replacement =
     (case splitAtFirst pat str of
        None \<Rightarrow> str
      | Some (preceding, following) \<Rightarrow>
          preceding @ getSubstitution pat preceding following replacement @ following)"

abbreviation nl :: char where
  "nl \<equiv> CHR 0x0A"

text \<open>Lines 162-169. An undefined \<^verbatim>\<open>buildGradleContent\<close> is rendered as the text
  \<^verbatim>\<open>undefined\<close>.\<close>

definition renderPrompt ::
  "string \<Rightarrow> string \<Rightarrow> string \<Rightarrow> string option \<Rightarrow> string list \<Rightarrow> string" where
  "renderPrompt template testOutput filesContent gradle hints =
     (let prompt =
            js_replace
              (js_replace
                 (js_replace template ''{testOutput}'' testOutput)
                 ''{filesContent}'' filesContent)
              ''{buildGradleContent}'' (case gradle of None \<Rightarrow> ''undefined'' | Some t \<Rightarrow> t)
      in if length hints > 0
         then prompt @ [nl, nl] @ ''Hints for improvement: '' @ js_join ''; '' hints
         else prompt)"

section \<open>The methods of AIPairRunner\<close>

text \<open>\<^verbatim>\<open>this.models\<close>. A name that the object only inherits (\<^verbatim>\<open>constructor\<close>,
  \<^verbatim>\<open>toString\<close>, ...) yields no family name, and both readers below treat it as absent
  (only the wording of the error line would differ).\<close>

definition models :: "string \<rightharpoonup> family" where
  "models = map_of
     [(''gpt-4o'', Openai),
      (''gpt-4o-mini'', Openai),
      (''gpt-3.5-turbo'', Openai),
      (''claude-3-5-sonnet-20241022'', Anthropic),
      (''claude-3-5-sonnet'', Anthropic),
      (''gemini-1.5-pro'', Gemini),
      (''gemini-2'', Gemini)]"

definition familyName :: "family option \<Rightarrow> string" where
  "familyName f =
     (case f of
        None \<Rightarrow> ''undefined''
      | Some Openai \<Rightarrow> ''openai''
      | Some Anthropic \<Rightarrow> ''anthropic''
      | Some Gemini \<Rightarrow> ''gemini'')"

text \<open>The body of \<^verbatim>\<open>if (!apiKey)\<close>, lines 49-51.\<close>

definition noApiKey :: "family option \<Rightarrow> state \<Rightarrow> 'a outcome \<times> state" where
  "noApiKey f s =
     (Exited 1,
      emit [ConsoleError (''Error: No API key found for '' @ familyName f @ '' model family.''),
            ConsoleError ''Please set the appropriate environment variable.'',
            ProcessExit 1] s)"

text \<open>Lines 44-55. \<^verbatim>\<open>!apiKey\<close> holds for an undefined key and for the empty string.\<close>

definition getApiKeyForModel :: "string \<Rightarrow> state \<Rightarrow> string outcome \<times> state" where
  "getApiKeyForModel m s =
     (let family = models m;
          apiKey = (case family of None \<Rightarrow> None | Some f \<Rightarrow> apiKeys s f)
      in case apiKey of
           None \<Rightarrow> noApiKey family s
         | Some k \<Rightarrow> if k = [] then noApiKey family s else (Returned k, s))"

text \<open>Lines 57-68.\<close>

definition selectAIClient :: "string \<Rightarrow> string \<Rightarrow> state \<Rightarrow> client \<times> state" where
  "selectAIClient apiKey m s =
     (let family = models m
      in if family = Some Openai then (ChatGPTClient apiKey m, s)
         else if family = Some Anthropic then (ClaudeClient apiKey m, s)
         else if family = Some Gemini then (GeminiClient apiKey m, s)
         else (ChatGPTClient apiKey m,
               emit [LoggerWarn ''Model not recognized, defaulting to ChatGPTClient.''] s))"

text \<open>
  Lines 70-87, with the answer of \<^verbatim>\<open>readline.question\<close> as the argument. An answer that
  names a property every object inherits makes \<^verbatim>\<open>modelMap[modelChoice]\<close> a function or an
  object, which is truthy and is returned as it is: the result is then no model name
  (\<open>None\<close>).
\<close>

definition modelMap :: "string \<rightharpoonup> string" where
  "modelMap = map_of
     [(''1'', ''gpt-4o''),
      (''2'', ''gpt-4o-mini''),
      (''3'', ''gpt-3.5-turbo''),
      (''4'', ''claude-3-5-sonnet-20241022''),
      (''5'', ''gemini-1.5-pro''),
      (''6'', ''gemini-2'')]"

definition objectPrototypeKeys :: "string list" where
  "objectPrototypeKeys =
     [''constructor'', ''__proto__'', ''hasOwnProperty'', ''isPrototypeOf'',
      ''propertyIsEnumerable'', ''toLocaleString'', ''toString'', ''valueOf'',
      ''__defineGetter__'', ''__defineSetter__'', ''__lookupGetter__'', ''__lookupSetter__'']"

definition promptForModel :: "string \<Rightarrow> string option" where
  "promptForModel modelChoice =
     (case modelMap modelChoice of
        Some m \<Rightarrow> Some m
      | None \<Rightarrow> if modelChoice \<in> set objectPrototypeKeys then None else Some ''gpt-4o'')"

subsection \<open>FailureExtractor: from the class to the test file\<close>

text \<open>Line 141.\<close>

definition testFilePath :: "state \<Rightarrow> string \<Rightarrow> string" where
  "testFilePath s test =
     path_join [projectRoot s, ''src/test/java'',
                map (\<lambda>c. if c = CHR ''.'' then CHR ''/'' else c) (extractClassName test) @ ''.java'']"

text \<open>Lines 144-147: the entry for one failing test, and the file-system calls that
  building it makes.\<close>

definition testFileFor :: "state \<Rightarrow> string \<Rightarrow> sourceFile" where
  "testFileFor s test =
     \<lparr>path = testFilePath s test,
      content = (case files s (testFilePath s test) of Some t \<Rightarrow> t | None \<Rightarrow> [])\<rparr>"

definition testFileEvents :: "state \<Rightarrow> string \<Rightarrow> event list" where
  "testFileEvents s test =
     (if files s (testFilePath s test) \<noteq> None
      then [ExistsSync (testFilePath s test), ReadFile (testFilePath s test)]
      else [ExistsSync (testFilePath s test)])"

text \<open>Lines 120-148: \<^verbatim>\<open>failedTests.map(...)\<close>.\<close>

definition failedTestFiles :: "state \<Rightarrow> string list \<Rightarrow> sourceFile list" where
  "failedTestFiles s failedTests = map (testFileFor s) failedTests"

subsection \<open>One repair cycle\<close>

text \<open>Lines 109-169: the prompt of a cycle, from the test output and the failed tests
  that the pre-check left.\<close>

definition cyclePrompt :: "collab \<Rightarrow> string \<Rightarrow> string list \<Rightarrow> state \<Rightarrow> string" where
  "cyclePrompt C testOutput failedTests s =
     (let codeFiles =
            collectFilesWithExtension C [path_join [projectRoot s, ''src/main'']]
              (extension s) (files s);
          testFiles = failedTestFiles s failedTests;
          filesContent =
            js_join [nl, nl]
              (map (\<lambda>file. ''File: '' @ relative C (projectRoot s) (path file)
                              @ [nl, nl] @ content file)
                   (codeFiles @ testFiles))
      in renderPrompt (promptTemplate s) testOutput filesContent
           (buildGradleContent s) (accumulatedHints s))"

text \<open>Lines 108-192: everything after the pre-check. Calling \<^verbatim>\<open>generateCode\<close> on an
  undefined \<^verbatim>\<open>this.client\<close> throws a TypeError.\<close>

definition generateAndRetest ::
  "collab \<Rightarrow> string \<Rightarrow> string list \<Rightarrow> state \<Rightarrow> js_value outcome \<times> state" where
  "generateAndRetest C testOutput failedTests s =
     (let s1 = emit (CollectFiles [path_join [projectRoot s, ''src/main'']] (extension s)
                       # concat (map (testFileEvents s) failedTests)) s;
          prompt = cyclePrompt C testOutput failedTests s;
          sessionLogFilePath = path_join [tmpDir s, ''session_log.txt''];
          s2 = appendFileSync sessionLogFilePath
                 (''Prompt at '' @ toISOString C (length (trace s1)) @ '':'' @ [nl]
                    @ prompt @ [nl, nl]) s1
      in case client s of
           None \<Rightarrow> (Threw ''TypeError'', s2)
         | Some cl \<Rightarrow>
             (let generatedCode = generateCode C cl prompt (tmpDir s) (systemPrompt s);
                  s3 = emit [GenerateCode cl prompt (tmpDir s) (systemPrompt s)] s2;
                  s4 = emit [ApplyGeneratedCode (projectRoot s) (tmpDir s) (extension s) generatedCode]
                         (s3\<lparr>files := parseAndApplyGeneratedCode C (projectRoot s) (tmpDir s)
                                         (extension s) generatedCode (files s3)\<rparr>);
                  testsPassed = fst (runTests C (projectRoot s) (tmpDir s) (files s4));
                  s5 = emit [RunTests (projectRoot s) (tmpDir s)]
                         (s4\<lparr>files := snd (runTests C (projectRoot s) (tmpDir s) (files s4))\<rparr>)
              in if \<not> testsPassed
                 then andThen (readFileSync (path_join [tmpDir s, ''test_output.txt'']) s5)
                        (\<lambda>shown s6. (Returned (JSBool testsPassed), s6))
                 else (Returned (JSBool testsPassed), s5)))"

text \<open>Lines 89-193. The bare \<^verbatim>\<open>return;\<close> of line 101 returns \<^verbatim>\<open>undefined\<close>.\<close>

definition performCodeGenerationCycle ::
  "collab \<Rightarrow> bool \<Rightarrow> state \<Rightarrow> js_value outcome \<times> state" where
  "performCodeGenerationCycle C force s =
     (if \<not> force then
        (let testsPassed = fst (runTests C (projectRoot s) (tmpDir s) (files s));
             s1 = emit [RunTests (projectRoot s) (tmpDir s)]
                    (s\<lparr>files := snd (runTests C (projectRoot s) (tmpDir s) (files s))\<rparr>)
         in andThen (readFileSync (path_join [tmpDir s, ''test_output.txt'']) s1)
              (\<lambda>testOutput s2.
                 if testsPassed then (Returned JSUndefined, s2)
                 else generateAndRetest C testOutput
                        (summarizeAllTests C (projectRoot s) (tmpDir s) (files s2))
                        (emit [SummarizeAllTests (projectRoot s) (tmpDir s)] s2)))
      else generateAndRetest C ''No test output yet.'' [] s)"

text \<open>Lines 206-211: the result is only looked at for a debug message.\<close>

definition handleSingleIteration :: "collab \<Rightarrow> bool \<Rightarrow> state \<Rightarrow> unit outcome \<times> state" where
  "handleSingleIteration C force s =
     andThen (performCodeGenerationCycle C force s) (\<lambda>allTestsPassed s'. (Returned (), s'))"

subsection \<open>The session\<close>

text \<open>Lines 213-223: the watcher is installed; each change it reports later runs
  \<^verbatim>\<open>handleSingleIteration(true)\<close>. The changes are taken one after the other.\<close>

definition watchCode :: "state \<Rightarrow> state" where
  "watchCode s =
     emit [Watch [path_join [projectRoot s, ''src''], path_join [projectRoot s, ''test'']]] s"

fun onChanges :: "collab \<Rightarrow> string list \<Rightarrow> state \<Rightarrow> unit outcome \<times> state" where
  "onChanges C [] s = (Returned (), s)"
| "onChanges C (filePath # later) s =
     andThen (handleSingleIteration C True s) (\<lambda>u s'. onChanges C later s')"

text \<open>Lines 225-232, with the answer of \<^verbatim>\<open>readline.question\<close> as the argument.\<close>

definition handleHint :: "collab \<Rightarrow> string \<Rightarrow> state \<Rightarrow> unit outcome \<times> state" where
  "handleHint C userFeedback s =
     handleSingleIteration C True
       (if userFeedback \<noteq> []
        then s\<lparr>accumulatedHints := accumulatedHints s @ [userFeedback]\<rparr>
        else s)"

text \<open>Lines 234-239, with the answer to \<^verbatim>\<open>promptForModel\<close>'s question as the argument.\<close>

definition handleModelChange :: "collab \<Rightarrow> string \<Rightarrow> state \<Rightarrow> unit outcome \<times> state" where
  "handleModelChange C modelChoice s =
     (case promptForModel modelChoice of
        None \<Rightarrow> noApiKey None s
      | Some newModel \<Rightarrow>
          andThen (getApiKeyForModel newModel s)
            (\<lambda>apiKey s1.
               handleSingleIteration C True
                 ((snd (selectAIClient apiKey newModel s1))
                    \<lparr>client := Some (fst (selectAIClient apiKey newModel s1))\<rparr>)))"

text \<open>\<^verbatim>\<open>String.prototype.trim\<close>, for the white space below code unit 256.\<close>

definition isWhiteSpace :: "char \<Rightarrow> bool" where
  "isWhiteSpace c = ((of_char c :: nat) \<in> {9, 10, 11, 12, 13, 32, 160})"

definition js_trim :: "string \<Rightarrow> string" where
  "js_trim str = rev (dropWhile isWhiteSpace (rev (dropWhile isWhiteSpace str)))"

text \<open>
  Lines 261-283. The lines typed at the terminal are the list; each
  \<^verbatim>\<open>readline.question\<close> takes the next one, and the loop waits when there is none.
\<close>

fun startInteractiveLoop :: "collab \<Rightarrow> string list \<Rightarrow> state \<Rightarrow> unit outcome \<times> state" where
  "startInteractiveLoop C [] s = (Blocked, s)"
| "startInteractiveLoop C (answer # rest) s =
     (let userChoice = toLowerCase (js_trim answer)
      in if userChoice = ''c'' \<or> userChoice = [] then
           andThen (handleSingleIteration C False s) (\<lambda>u s'. startInteractiveLoop C rest s')
         else if userChoice = ''h'' then
           (case rest of
              [] \<Rightarrow> (Blocked, s)
            | userFeedback # rest' \<Rightarrow>
                andThen (handleHint C userFeedback s) (\<lambda>u s'. startInteractiveLoop C rest' s'))
         else if userChoice = ''m'' then
           (case rest of
              [] \<Rightarrow> (Blocked, s)
            | modelChoice # rest' \<Rightarrow>
                andThen (handleModelChange C modelChoice s)
                  (\<lambda>u s'. startInteractiveLoop C rest' s'))
         else if userChoice = ''e'' \<or> userChoice = ''x'' then
           (Exited 0, emit [ProcessExit 0] s)
         else if userChoice = ''w'' then (Returned (), watchCode s)
         else startInteractiveLoop C rest s)"

text \<open>Lines 241-259.\<close>

definition run :: "collab \<Rightarrow> string list \<Rightarrow> state \<Rightarrow> unit outcome \<times> state" where
  "run C answers s =
     andThen (getApiKeyForModel (model s) s)
       (\<lambda>apiKey s1.
          (let s2 = (snd (selectAIClient apiKey (model s) s1))
                      \<lparr>client := Some (fst (selectAIClient apiKey (model s) s1))\<rparr>;
               s3 = emit [ClearDirectory (tmpDir s)]
                      (s2\<lparr>files := clearDirectory C (tmpDir s) (files s2)\<rparr>);
               s4 = emit [ClearDirectory (path_join [tmpDir s, ''archive/versions''])]
                      (s3\<lparr>files := clearDirectory C (path_join [tmpDir s, ''archive/versions''])
                                      (files s3)\<rparr>);
               buildGradlePath = path_join [projectRoot s, ''build.gradle.kts''];
               s5 = emit [ExistsSync buildGradlePath] s4
           in andThen (if files s5 buildGradlePath \<noteq> None
                       then readFileSync buildGradlePath s5
                       else (Returned [], s5))
                (\<lambda>gradle s6.
                   andThen (handleSingleIteration C False (s6\<lparr>buildGradleContent := Some gradle\<rparr>))
                     (\<lambda>u s7. startInteractiveLoop C answers s7))))"

text \<open>
  Lines 17-42: the constructor, given the working directory, the directory of the
  script and the files there are. It throws when a prompt file is missing.
\<close>

definition new_AIPairRunner ::
  "string \<Rightarrow> string \<Rightarrow> string \<Rightarrow> string \<Rightarrow> string option \<Rightarrow> string option \<Rightarrow> string option
     \<Rightarrow> string option \<Rightarrow> string \<Rightarrow> string \<Rightarrow> (string \<rightharpoonup> string) \<Rightarrow> string + state" where
  "new_AIPairRunner m root tdir ext anthropicApiKey openaiApiKey geminiApiKey lvl cwd dirname fs =
     (case fs (path_join [dirname, ''prompts'', ''system_prompt.txt'']) of
        None \<Rightarrow> Inl ''ENOENT''
      | Some sp \<Rightarrow>
          (case fs (path_join [dirname, ''prompts'', ''prompt_template.txt'']) of
             None \<Rightarrow> Inl ''ENOENT''
           | Some pt \<Rightarrow>
               Inr \<lparr>model = m, projectRoot = root, extension = ext, testDir = tdir,
                    apiKeys = (\<lambda>f. case f of Anthropic \<Rightarrow> anthropicApiKey
                                            | Openai \<Rightarrow> openaiApiKey
                                            | Gemini \<Rightarrow> geminiApiKey),
                    logLevel = lvl,
                    tmpDir = path_join [cwd, ''tmp''],
                    systemPrompt = sp, promptTemplate = pt,
                    accumulatedHints = [],
                    client = None, buildGradleContent = None,
                    files = fs,
                    trace = [ReadFile (path_join [dirname, ''prompts'', ''system_prompt.txt'']),
                             ReadFile (path_join [dirname, ''prompts'', ''prompt_template.txt''])]\<rparr>))"


section \<open>Reading the event trace\<close>

fun promptOf :: "event \<Rightarrow> string list" where
  "promptOf (GenerateCode cl prompt tmp sys) = [prompt]"
| "promptOf e = []"

text \<open>The prompts sent to the AI backend, oldest first, and how many calls there were.\<close>

definition generatedPrompts :: "event list \<Rightarrow> string list" where
  "generatedPrompts tr = concat (map promptOf tr)"

definition generateCalls :: "event list \<Rightarrow> nat" where
  "generateCalls tr = length (generatedPrompts tr)"

text \<open>The events that read the project tree, run its tests or collect context.\<close>

fun touchesProject :: "event \<Rightarrow> bool" where
  "touchesProject (ConsoleError t) = False"
| "touchesProject (LoggerWarn t) = False"
| "touchesProject (ProcessExit n) = False"
| "touchesProject e = True"

text \<open>The hint line that line 168 appends to the prompt.\<close>

definition hintsLine :: "string list \<Rightarrow> string" where
  "hintsLine hints = [nl, nl] @ ''Hints for improvement: '' @ js_join ''; '' hints"

text \<open>What is typed to submit the hints \<open>hs\<close> one after the other: the menu choice
  \<^verbatim>\<open>h\<close>, then the hint.\<close>

definition hintScript :: "string list \<Rightarrow> string list" where
  "hintScript hs = concat (map (\<lambda>h. [''h'', h]) hs)"

text \<open>The backend class of a client, as a family.\<close>

fun familyOf :: "client \<Rightarrow> family" where
  "familyOf (ChatGPTClient k m) = Openai"
| "familyOf (ClaudeClient k m) = Anthropic"
| "familyOf (GeminiClient k m) = Gemini"

section \<open>A sample project\<close>

text \<open>
  Collaborators and a runner to run the definitions on: the tests of the sample project
  pass once \<^verbatim>\<open>Fix.java\<close> exists, which is what the backend's answer creates.
\<close>

definition sampleCollab :: collab where
  "sampleCollab =
     \<lparr>runTests = (\<lambda>root tmp fs.
         (fs (root @ ''/src/main/java/Fix.java'') \<noteq> None,
          fs(tmp @ ''/test_output.txt'' \<mapsto>
               (if fs (root @ ''/src/main/java/Fix.java'') \<noteq> None
                then ''BUILD SUCCESSFUL'' else ''2 tests failed'')))),
      summarizeAllTests = (\<lambda>root tmp fs.
         [''testFoo(org.ex.ThingTest)'', ''org.ex.OtherTest.testBar'']),
      collectFilesWithExtension = (\<lambda>dirs ext fs.
         [\<lparr>path = ''/proj/src/main/java/App.java'', content = ''class App {}''\<rparr>]),
      generateCode = (\<lambda>cl prompt tmp sys. ''class Fix {}''),
      parseAndApplyGeneratedCode = (\<lambda>root tmp ext code fs.
         fs(root @ ''/src/main/java/Fix.java'' \<mapsto> code)),
      clearDirectory = (\<lambda>dir fs. fs),
      relative = (\<lambda>from to. drop (length from + 1) to),
      toISOString = (\<lambda>n. ''2024-01-01T00:00:00.000Z'')\<rparr>"

definition sampleState :: state where
  "sampleState =
     \<lparr>model = ''gpt-4o'', projectRoot = ''/proj'', extension = ''.java'',
      testDir = ''/proj/src/test/java'',
      apiKeys = (\<lambda>f. if f = Openai then Some ''sk-1'' else None),
      logLevel = None,
      tmpDir = ''/work/tmp'',
      systemPrompt = ''You fix code.'',
      promptTemplate = ''Output: {testOutput} Files: {filesContent} Build: {buildGradleContent}'',
      accumulatedHints = [],
      client = Some (ChatGPTClient ''sk-1'' ''gpt-4o''),
      buildGradleContent = Some ''plugins {}'',
      files = [''/proj/src/test/java/org/ex/ThingTest.java'' \<mapsto> ''class ThingTest {}''],
      trace = []\<rparr>"

text \<open>The same project with its tests passing.\<close>

definition passingState :: state where
  "passingState =
     sampleState\<lparr>files := (files sampleState)(''/proj/src/main/java/Fix.java'' \<mapsto> ''class Fix {}'')\<rparr>"


section \<open>Properties of the string functions\<close>

lemma split_on_not_Nil: "split_on c s \<noteq> []"
  by (induction s) (auto split: list.splits)

lemma split_on_append_sep: "split_on c (a @ c # b) = split_on c a @ split_on c b"
proof (induction a)
  case Nil
  then show ?case by simp
next
  case (Cons x a)
  then show ?case
    using split_on_not_Nil [of c a]
    by (cases "split_on c a") auto
qed

lemma split_on_no_sep: "c \<notin> set s \<Longrightarrow> split_on c s = [s]"
  by (induction s) auto

lemma js_join_snoc: "xs \<noteq> [] \<Longrightarrow> js_join sep (xs @ [y]) = js_join sep xs @ sep @ y"
  by (induction sep xs rule: js_join.induct) auto

lemma js_join_Cons: "ys \<noteq> [] \<Longrightarrow> js_join sep (x # ys) = x @ sep @ js_join sep ys"
  by (cases ys) auto

lemma js_join_split_on: "js_join [c] (split_on c s) = s"
proof (induction s)
  case Nil
  then show ?case by simp
next
  case (Cons x s)
  show ?case
  proof (cases "split_on c s")
    case Nil
    then show ?thesis using split_on_not_Nil [of c s] by simp
  next
    case (Cons y ys)
    with Cons.IH show ?thesis
      by (cases ys) (auto simp: js_join_Cons)
  qed
qed

lemma matchParen_skip: "CHR ''('' \<notin> set m \<Longrightarrow> matchParen (m @ r) = matchParen r"
  by (induction m) auto

lemma matchParen_here:
  "cls \<noteq> [] \<Longrightarrow> CHR '')'' \<notin> set cls \<Longrightarrow> matchParen (CHR ''('' # cls @ CHR '')'' # r) = Some cls"
proof -
  assume ne: "cls \<noteq> []" and np: "CHR '')'' \<notin> set cls"
  have t: "takeWhile (\<lambda>d. d \<noteq> CHR '')'') (cls @ CHR '')'' # r) = cls"
    using np by (induction cls) auto
  have d: "dropWhile (\<lambda>d. d \<noteq> CHR '')'') (cls @ CHR '')'' # r) = CHR '')'' # r"
    using np by (induction cls) auto
  show ?thesis using ne by (simp add: t d)
qed

lemma toLowerCaseChar_upper: "isUpperLetter c \<Longrightarrow> toLowerCaseChar c \<noteq> c"
proof -
  assume u: "isUpperLetter c"
  have "(of_char (toLowerCaseChar c) :: nat) = of_char c + 32"
    using u by (auto simp: isUpperLetter_def toLowerCaseChar_def Let_def)
  then show ?thesis by auto
qed

lemma toLowerCaseChar_lower: "isLowerLetter c \<Longrightarrow> toLowerCaseChar c = c"
  by (auto simp: isLowerLetter_def toLowerCaseChar_def Let_def)

lemma last_split_on_snoc:
  "c \<notin> set seg \<Longrightarrow> split_on c (pre @ c # seg) = split_on c pre @ [seg]"
  by (simp add: split_on_append_sep split_on_no_sep)

section \<open>Properties of FailureExtractor\<close>

subsection \<open>The class name\<close>

lemma extractClassName_paren:
  assumes "CHR ''('' \<notin> set m" "cls \<noteq> []" "CHR '')'' \<notin> set cls"
  shows "extractClassName (m @ ''('' @ cls @ '')'') =
           (if last (split_on CHR ''.'' cls) \<noteq> []
               \<and> hd (last (split_on CHR ''.'' cls)) = toLowerCaseChar (hd (last (split_on CHR ''.'' cls)))
            then js_join ''.'' (butlast (split_on CHR ''.'' cls)) else cls)"
proof -
  have "matchParen (m @ ''('' @ cls @ '')'') = Some cls"
    using assms matchParen_here [of cls "[]"] by (simp add: matchParen_skip)
  then show ?thesis by (simp add: extractClassName_def Let_def)
qed

text \<open>
  Claim C4 does not hold as stated: the last dot-separated segment of the parenthesised
  text is dropped as well when it begins with a character that lower-casing leaves
  unchanged, so \<^verbatim>\<open>testFoo(org.ex.thingTest)\<close> gives \<^verbatim>\<open>org.ex\<close>.
\<close>

theorem extractClassName_parenthesised_lowercase_counterexample:
  "extractClassName ''testFoo(org.ex.thingTest)'' \<noteq> ''org.ex.thingTest''"
  by (simp add: extractClassName_def toLowerCaseChar_def)

text \<open>
  Claim C4, amended: for a failure string \<open>m(cls)\<close>, with no opening parenthesis in
  \<open>m\<close> and no closing one in \<open>cls\<close>, whose last dot-separated segment of \<open>cls\<close>
  begins with an upper-case letter, the class name is \<open>cls\<close>, whatever the casing of
  \<open>m\<close> and the dots in it.
\<close>

theorem extractClassName_parenthesised:
  assumes "CHR ''('' \<notin> set m" and "CHR '')'' \<notin> set cls"
    and "last (split_on CHR ''.'' cls) = c # cs" and "isUpperLetter c"
  shows "extractClassName (m @ ''('' @ cls @ '')'') = cls"
proof -
  have "cls \<noteq> []" using assms(3) by auto
  from extractClassName_paren [OF assms(1) this assms(2)] show ?thesis
    using assms(3,4) toLowerCaseChar_upper [of c] by auto
qed

theorem extractClassName_parenthesised_witness:
  "CHR ''('' \<notin> set ''test.Foo'' \<and> CHR '')'' \<notin> set ''org.ex.ThingTest''
   \<and> last (split_on CHR ''.'' ''org.ex.ThingTest'') = ''ThingTest'' \<and> isUpperLetter CHR ''T''
   \<and> extractClassName ''test.Foo(org.ex.ThingTest)'' = ''org.ex.ThingTest''"
  using extractClassName_parenthesised
          [of "''test.Foo''" "''org.ex.ThingTest''" "CHR ''T''" "''hingTest''"]
  by (simp add: isUpperLetter_def)

text \<open>
  Claim C5: for a dotted failure string without parentheses, \<open>pre.seg\<close> with \<open>seg\<close>
  its last segment: when \<open>seg\<close> begins with a lower-case letter the class name is
  \<open>pre\<close>, and when it begins with an upper-case letter the class name is the whole
  string.
\<close>

theorem extractClassName_dotted:
  assumes "CHR ''('' \<notin> set pre" and "CHR ''('' \<notin> set seg" and "CHR ''.'' \<notin> set seg"
    and "seg = c # cs"
  shows "(isLowerLetter c \<longrightarrow> extractClassName (pre @ ''.'' @ seg) = pre)
       \<and> (isUpperLetter c \<longrightarrow> extractClassName (pre @ ''.'' @ seg) = pre @ ''.'' @ seg)"
proof -
  have sp: "split_on CHR ''.'' (pre @ ''.'' @ seg) = split_on CHR ''.'' pre @ [seg]"
    using assms(3) by (simp add: last_split_on_snoc)
  have np: "CHR ''('' \<notin> set (pre @ ''.'' @ seg)" using assms by simp
  have e: "extractClassName (pre @ ''.'' @ seg) =
            (if c = toLowerCaseChar c then js_join ''.'' (split_on CHR ''.'' pre)
             else pre @ ''.'' @ seg)"
    unfolding extractClassName_def Let_def using np sp assms(4) by simp
  show ?thesis
    using e toLowerCaseChar_lower [of c] toLowerCaseChar_upper [of c]
    by (auto simp: js_join_split_on)
qed

theorem extractClassName_dotted_witness:
  "isLowerLetter CHR ''t'' \<and> extractClassName ''a.b.Thing.testFoo'' = ''a.b.Thing''
   \<and> isUpperLetter CHR ''T'' \<and> extractClassName ''a.b.Thing'' = ''a.b.Thing''"
  using extractClassName_dotted [of "''a.b.Thing''" "''testFoo''" "CHR ''t''" "''estFoo''"]
        extractClassName_dotted [of "''a.b''" "''Thing''" "CHR ''T''" "''hing''"]
  by (simp add: isLowerLetter_def isUpperLetter_def)

subsection \<open>The test file path\<close>

lemma normalizeSegments_append:
  "normalizeSegments a res (xs @ ys) = normalizeSegments a (normalizeSegments a res xs) ys"
  by (induction xs arbitrary: res) auto

lemma normalizeSegments_plain:
  "\<forall>seg\<in>set ys. seg \<noteq> ''.'' \<and> seg \<noteq> ''..'' \<Longrightarrow>
     normalizeSegments a res ys = res @ filter (\<lambda>seg. seg \<noteq> []) ys"
  by (induction ys arbitrary: res) auto

lemma split_on_subset: "seg \<in> set (split_on c y) \<Longrightarrow> set seg \<subseteq> set y"
proof (induction y arbitrary: seg)
  case Nil
  then show ?case by simp
next
  case (Cons x y)
  show ?case
  proof (cases "split_on c y")
    case Nil
    then show ?thesis using split_on_not_Nil [of c y] by simp
  next
    case (Cons z zs)
    then have z: "set z \<subseteq> set y" and zs: "\<And>w. w \<in> set zs \<Longrightarrow> set w \<subseteq> set y"
      using Cons.IH by auto
    show ?thesis
      using Cons.prems Cons z zs by (fastforce split: if_splits)
  qed
qed

lemma split_on_append_plain:
  "c \<notin> set z \<Longrightarrow> split_on c (y @ z) = butlast (split_on c y) @ [last (split_on c y) @ z]"
proof (induction y)
  case Nil
  then show ?case by (simp add: split_on_no_sep)
next
  case (Cons x y)
  show ?case
  proof (cases "split_on c y")
    case Nil
    then show ?thesis using split_on_not_Nil [of c y] by simp
  next
    case (Cons w ws)
    with Cons.IH [OF Cons.prems] show ?thesis
      by (cases ws) (auto simp: split_on_not_Nil)
  qed
qed

lemma js_join_append:
  "xs \<noteq> [] \<Longrightarrow> ys \<noteq> [] \<Longrightarrow> js_join sep (xs @ ys) = js_join sep xs @ sep @ js_join sep ys"
proof (induction sep xs rule: js_join.induct)
  case (1 sep)
  then show ?case by simp
next
  case (2 sep x)
  then show ?case by (simp add: js_join_Cons)
next
  case (3 sep x y ys)
  then show ?case by simp
qed

lemma js_join_last_nonempty: "xs \<noteq> [] \<Longrightarrow> last xs \<noteq> [] \<Longrightarrow> js_join sep xs \<noteq> []"
  by (induction sep xs rule: js_join.induct) auto

lemma js_join_suffix_last: "xs \<noteq> [] \<Longrightarrow> suffix (last xs) (js_join sep xs)"
proof (induction sep xs rule: js_join.induct)
  case (3 sep x y ys)
  then have "suffix (last (y # ys)) (js_join sep (y # ys))" by simp
  then show ?case by (simp add: suffix_append)
qed auto


lemma split_src_test_java:
  "split_on CHR ''/'' ''src/test/java'' = [''src'', ''test'', ''java'']"
  by simp

lemma posix_normalize_under:
  assumes A: "A = r @ ''src/test/java''" and r: "r = [] \<or> last r = CHR ''/''"
    and plain: "\<forall>seg\<in>set (split_on CHR ''/'' X). seg \<noteq> ''.'' \<and> seg \<noteq> ''..''"
    and lastne: "last (split_on CHR ''/'' X) \<noteq> []"
    and X: "X \<noteq> []" "last X \<noteq> CHR ''/''"
  shows "posix_normalize (A @ ''/'' @ X) =
           posix_normalize A @ ''/'' @ js_join ''/'' (filter (\<lambda>seg. seg \<noteq> []) (split_on CHR ''/'' X))"
proof -
  define a where "a = (hd A \<noteq> CHR ''/'')"
  define R0 where "R0 = normalizeSegments a [] (if r = [] then [] else split_on CHR ''/'' (butlast r))"
  define R where "R = R0 @ [''src'', ''test'', ''java'']"
  define F where "F = filter (\<lambda>seg. seg \<noteq> []) (split_on CHR ''/'' X)"
  have Ane: "A \<noteq> []" using A by simp
  have splitA: "split_on CHR ''/'' A =
      (if r = [] then [] else split_on CHR ''/'' (butlast r)) @ [''src'', ''test'', ''java'']"
  proof (cases "r = []")
    case True
    then show ?thesis using A by simp
  next
    case False
    then have "r = butlast r @ [CHR ''/'']" using r by (metis append_butlast_last_id)
    then have "A = butlast r @ CHR ''/'' # ''src/test/java''" using A by (metis append_Cons append_Nil append_assoc)
    then have "split_on CHR ''/'' A = split_on CHR ''/'' (butlast r) @ split_on CHR ''/'' ''src/test/java''"
      by (simp only: split_on_append_sep)
    then show ?thesis using False by (simp only: split_src_test_java if_False)
  qed
  have RA: "normalizeSegments a [] (split_on CHR ''/'' A) = R"
    unfolding splitA normalizeSegments_append R_def R0_def
    by (simp add: normalizeSegments_plain)
  have Rne: "R \<noteq> []" and Rlast: "last R \<noteq> []" by (simp_all add: R_def)
  have Fne: "F \<noteq> []"
    using lastne split_on_not_Nil [of "CHR ''/''" X] unfolding F_def
    by (metis (mono_tags, lifting) filter_empty_conv last_in_set)
  have splitAX: "split_on CHR ''/'' (A @ ''/'' @ X) = split_on CHR ''/'' A @ split_on CHR ''/'' X"
    using split_on_append_sep [of "CHR ''/''" A X] by simp
  have RAX: "normalizeSegments a [] (split_on CHR ''/'' (A @ ''/'' @ X)) = R @ F"
    unfolding splitAX normalizeSegments_append RA F_def
    using plain by (rule normalizeSegments_plain)
  have qA: "normalizeString A a = js_join ''/'' R"
    by (simp add: normalizeString_def RA)
  have qAX: "normalizeString (A @ ''/'' @ X) a = js_join ''/'' R @ ''/'' @ js_join ''/'' F"
    unfolding normalizeString_def RAX using Rne Fne by (rule js_join_append)
  have qne: "js_join ''/'' R \<noteq> []" using Rne Rlast by (rule js_join_last_nonempty)
  have lastA: "last A \<noteq> CHR ''/''" using A by simp
  have hdAX: "hd (A @ ''/'' @ X) = hd A" using Ane by simp
  have lastAX: "last (A @ ''/'' @ X) = last X" using X by simp
  have nA: "posix_normalize A = (if hd A = CHR ''/'' then CHR ''/'' # js_join ''/'' R else js_join ''/'' R)"
    using Ane lastA qA qne
    by (cases "hd A = CHR ''/''") (simp_all add: posix_normalize_def Let_def a_def)
  have nAX: "posix_normalize (A @ ''/'' @ X) =
      (if hd A = CHR ''/'' then CHR ''/'' # js_join ''/'' R @ ''/'' @ js_join ''/'' F
       else js_join ''/'' R @ ''/'' @ js_join ''/'' F)"
    unfolding posix_normalize_def Let_def hdAX lastAX
    using X qAX qne Ane by (cases "hd A = CHR ''/''") (simp_all add: a_def)
  show ?thesis unfolding nA nAX F_def by simp
qed


lemma path_join_under:
  assumes plain: "\<forall>seg\<in>set (split_on CHR ''/'' X). seg \<noteq> ''.'' \<and> seg \<noteq> ''..''"
    and lastne: "last (split_on CHR ''/'' X) \<noteq> []"
    and X: "X \<noteq> []" "last X \<noteq> CHR ''/''"
  shows "path_join [root, ''src/test/java'', X] =
           path_join [root, ''src/test/java''] @ ''/''
             @ js_join ''/'' (filter (\<lambda>seg. seg \<noteq> []) (split_on CHR ''/'' X))"
proof -
  define r where "r = (if root = [] then [] else root @ ''/'')"
  define A where "A = r @ ''src/test/java''"
  have r: "r = [] \<or> last r = CHR ''/''" by (simp add: r_def)
  have j2: "path_join [root, ''src/test/java''] = posix_normalize A"
    by (simp add: path_join_def A_def r_def)
  have j3: "path_join [root, ''src/test/java'', X] = posix_normalize (A @ ''/'' @ X)"
    using X(1) by (simp add: path_join_def A_def r_def)
  show ?thesis
    unfolding j2 j3 using A_def r plain lastne X by (rule posix_normalize_under)
qed

lemma javaFile_segments:
  assumes "CHR ''.'' \<notin> set Y"
  shows "\<forall>seg\<in>set (split_on CHR ''/'' (Y @ ''.java'')). seg \<noteq> ''.'' \<and> seg \<noteq> ''..''"
    and "last (split_on CHR ''/'' (Y @ ''.java'')) = last (split_on CHR ''/'' Y) @ ''.java''"
proof -
  have sp: "split_on CHR ''/'' (Y @ ''.java'') =
              butlast (split_on CHR ''/'' Y) @ [last (split_on CHR ''/'' Y) @ ''.java'']"
    by (rule split_on_append_plain) simp
  show "last (split_on CHR ''/'' (Y @ ''.java'')) = last (split_on CHR ''/'' Y) @ ''.java''"
    by (simp add: sp)
  show "\<forall>seg\<in>set (split_on CHR ''/'' (Y @ ''.java'')). seg \<noteq> ''.'' \<and> seg \<noteq> ''..''"
  proof
    fix seg assume "seg \<in> set (split_on CHR ''/'' (Y @ ''.java''))"
    then consider "seg \<in> set (butlast (split_on CHR ''/'' Y))"
      | "seg = last (split_on CHR ''/'' Y) @ ''.java''"
      unfolding sp by auto
    then show "seg \<noteq> ''.'' \<and> seg \<noteq> ''..''"
    proof cases
      case 1
      then have "seg \<in> set (split_on CHR ''/'' Y)" by (rule in_set_butlastD)
      then have "set seg \<subseteq> set Y" by (rule split_on_subset)
      then have "CHR ''.'' \<notin> set seg" using assms by auto
      then show ?thesis by auto
    next
      case 2
      then have "length seg \<ge> 5" by simp
      then show ?thesis by auto
    qed
  qed
qed

lemma testFilePath_eq:
  "testFilePath s test =
     path_join [projectRoot s, ''src/test/java''] @ ''/''
       @ js_join ''/'' (filter (\<lambda>seg. seg \<noteq> [])
           (split_on CHR ''/''
              (map (\<lambda>c. if c = CHR ''.'' then CHR ''/'' else c) (extractClassName test) @ ''.java'')))"
proof -
  define Y where "Y = map (\<lambda>c. if c = CHR ''.'' then CHR ''/'' else c) (extractClassName test)"
  have nodot: "CHR ''.'' \<notin> set Y" by (auto simp: Y_def)
  have "path_join [projectRoot s, ''src/test/java'', Y @ ''.java''] =
          path_join [projectRoot s, ''src/test/java''] @ ''/''
            @ js_join ''/'' (filter (\<lambda>seg. seg \<noteq> []) (split_on CHR ''/'' (Y @ ''.java'')))"
  proof (rule path_join_under)
    show "\<forall>seg\<in>set (split_on CHR ''/'' (Y @ ''.java'')). seg \<noteq> ''.'' \<and> seg \<noteq> ''..''"
      using nodot by (rule javaFile_segments(1))
    show "last (split_on CHR ''/'' (Y @ ''.java'')) \<noteq> []"
      by (simp add: javaFile_segments(2) [OF nodot])
    show "Y @ ''.java'' \<noteq> []" by simp
    show "last (Y @ ''.java'') \<noteq> CHR ''/''" by simp
  qed
  then show ?thesis by (simp add: testFilePath_def Y_def)
qed

lemma testFilePath_suffix: "suffix ''.java'' (testFilePath s test)"
proof -
  define Y where "Y = map (\<lambda>c. if c = CHR ''.'' then CHR ''/'' else c) (extractClassName test)"
  define F where "F = filter (\<lambda>seg. seg \<noteq> []) (split_on CHR ''/'' (Y @ ''.java''))"
  have nodot: "CHR ''.'' \<notin> set Y" by (auto simp: Y_def)
  have sp: "split_on CHR ''/'' (Y @ ''.java'') =
              butlast (split_on CHR ''/'' Y) @ [last (split_on CHR ''/'' Y) @ ''.java'']"
    by (rule split_on_append_plain) simp
  have F: "F = filter (\<lambda>seg. seg \<noteq> []) (butlast (split_on CHR ''/'' Y))
               @ [last (split_on CHR ''/'' Y) @ ''.java'']"
    by (simp add: F_def sp)
  then have Fne: "F \<noteq> []" and Flast: "last F = last (split_on CHR ''/'' Y) @ ''.java''"
    by simp_all
  have "suffix (last F) (js_join ''/'' F)" using Fne by (rule js_join_suffix_last)
  then have "suffix ''.java'' (js_join ''/'' F)"
    unfolding Flast by (meson suffix_order.trans suffixI)
  then have "suffix ''.java'' (path_join [projectRoot s, ''src/test/java''] @ ''/'' @ js_join ''/'' F)"
    by (simp add: suffix_append del: append.simps)
  then show ?thesis unfolding testFilePath_eq [of s test] F_def Y_def .
qed

text \<open>
  Claim C10: the test file path lies under \<^verbatim>\<open>projectRoot/src/test/java\<close> and ends in
  \<^verbatim>\<open>.java\<close>, and neither it nor the extracted entries nor the prompt of a cycle depend
  on the \<open>testDir\<close> of the runner, whatever test directory the constructor was given.
\<close>

theorem testFilePath_rooted_independent_of_testDir:
  "prefix (path_join [projectRoot s, ''src/test/java''] @ ''/'') (testFilePath s test)
   \<and> suffix ''.java'' (testFilePath s test)
   \<and> testFilePath (s\<lparr>testDir := d\<rparr>) test = testFilePath s test
   \<and> failedTestFiles (s\<lparr>testDir := d\<rparr>) failedTests = failedTestFiles s failedTests
   \<and> cyclePrompt C out failedTests (s\<lparr>testDir := d\<rparr>) = cyclePrompt C out failedTests s
   \<and> map_sum id (\<lambda>r. testFilePath r test)
         (new_AIPairRunner m root d ext anthropicApiKey openaiApiKey geminiApiKey lvl cwd dirname fs)
       = map_sum id (\<lambda>r. testFilePath r test)
           (new_AIPairRunner m root d' ext anthropicApiKey openaiApiKey geminiApiKey lvl cwd dirname fs)"
proof -
  have "prefix (path_join [projectRoot s, ''src/test/java''] @ ''/'') (testFilePath s test)"
    unfolding testFilePath_eq [of s test] by (simp add: prefix_def)
  moreover have tp: "\<And>t. testFilePath (s\<lparr>testDir := d\<rparr>) t = testFilePath s t"
    by (simp add: testFilePath_def)
  moreover have ff: "\<And>ts. failedTestFiles (s\<lparr>testDir := d\<rparr>) ts = failedTestFiles s ts"
    by (simp add: failedTestFiles_def testFileFor_def tp)
  moreover have "cyclePrompt C out failedTests (s\<lparr>testDir := d\<rparr>) = cyclePrompt C out failedTests s"
    by (simp add: cyclePrompt_def ff)
  moreover have "map_sum id (\<lambda>r. testFilePath r test)
         (new_AIPairRunner m root d ext anthropicApiKey openaiApiKey geminiApiKey lvl cwd dirname fs)
       = map_sum id (\<lambda>r. testFilePath r test)
           (new_AIPairRunner m root d' ext anthropicApiKey openaiApiKey geminiApiKey lvl cwd dirname fs)"
    by (simp add: new_AIPairRunner_def testFilePath_def split: option.splits)
  ultimately show ?thesis
    by (simp add: testFilePath_suffix)
qed

theorem testFilePath_rooted_independent_of_testDir_witness:
  "prefix ''/proj/src/test/java/'' (testFilePath sampleState ''org.ex.OtherTest.testBar'')
   \<and> suffix ''.java'' (testFilePath sampleState ''org.ex.OtherTest.testBar'')
   \<and> testFilePath (sampleState\<lparr>testDir := ''/elsewhere/tests''\<rparr>) ''org.ex.OtherTest.testBar''
       = testFilePath sampleState ''org.ex.OtherTest.testBar''"
proof -
  have r: "path_join [projectRoot sampleState, ''src/test/java''] = ''/proj/src/test/java''"
    by code_simp
  show ?thesis
    using testFilePath_rooted_independent_of_testDir
            [of sampleState "''org.ex.OtherTest.testBar''" "''/elsewhere/tests''" "[]"
               sampleCollab "[]"]
    unfolding r by simp
qed

section \<open>Properties of the runner\<close>

subsection \<open>State and trace bookkeeping\<close>

lemma emit_fields [simp]:
  "trace (emit es s) = trace s @ es"
  "files (emit es s) = files s"
  "accumulatedHints (emit es s) = accumulatedHints s"
  "client (emit es s) = client s"
  "projectRoot (emit es s) = projectRoot s"
  "tmpDir (emit es s) = tmpDir s"
  "systemPrompt (emit es s) = systemPrompt s"
  "extension (emit es s) = extension s"
  "model (emit es s) = model s"
  "apiKeys (emit es s) = apiKeys s"
  "promptTemplate (emit es s) = promptTemplate s"
  "buildGradleContent (emit es s) = buildGradleContent s"
  by (simp_all add: emit_def)

lemma appendFileSync_fields [simp]:
  "trace (appendFileSync p t s) = trace s @ [AppendFile p t]"
  "accumulatedHints (appendFileSync p t s) = accumulatedHints s"
  "client (appendFileSync p t s) = client s"
  by (simp_all add: appendFileSync_def)

lemma generateAndRetest_reaches_log:
  "\<exists>entry more.
     trace (snd (generateAndRetest C out fts s)) =
       trace s @ CollectFiles [path_join [projectRoot s, ''src/main'']] (extension s)
                 # concat (map (testFileEvents s) fts)
               @ AppendFile (path_join [tmpDir s, ''session_log.txt'']) entry # more"
  by (simp add: generateAndRetest_def Let_def andThen_def readFileSync_def split: option.splits)

lemma generatedPrompts_append [simp]:
  "generatedPrompts (xs @ ys) = generatedPrompts xs @ generatedPrompts ys"
  by (simp add: generatedPrompts_def)

lemma generatedPrompts_Cons [simp]:
  "generatedPrompts (e # es) = promptOf e @ generatedPrompts es"
  by (simp add: generatedPrompts_def)

lemma generatedPrompts_Nil [simp]: "generatedPrompts [] = []"
  by (simp add: generatedPrompts_def)

lemma generatedPrompts_testFileEvents [simp]:
  "generatedPrompts (concat (map (testFileEvents s) fts)) = []"
  by (induction fts) (simp_all add: testFileEvents_def)

subsection \<open>The extracted entries\<close>

text \<open>
  Claim C6: the extractor gives one entry per failed test, in the order of the input,
  each at the path of that test's class, without removing duplicates; the two failures
  of the scenario give the classes \<^verbatim>\<open>org.ex.ThingTest\<close> and \<^verbatim>\<open>org.ex.OtherTest\<close>; two failed
  methods of one class give two entries with the same path; no failures give no
  entries.
\<close>

theorem failedTestFiles_one_entry_per_failure:
  "length (failedTestFiles s failedTests) = length failedTests
   \<and> (\<forall>i<length failedTests.
         failedTestFiles s failedTests ! i = testFileFor s (failedTests ! i)
         \<and> path (failedTestFiles s failedTests ! i)
             = path_join [projectRoot s, ''src/test/java'',
                 map (\<lambda>c. if c = CHR ''.'' then CHR ''/'' else c)
                   (extractClassName (failedTests ! i)) @ ''.java''])
   \<and> map extractClassName [''testFoo(org.ex.ThingTest)'', ''org.ex.OtherTest.testBar'']
       = [''org.ex.ThingTest'', ''org.ex.OtherTest'']
   \<and> path (failedTestFiles s [''testFoo(org.ex.ThingTest)'', ''testBar(org.ex.ThingTest)''] ! 0)
       = path (failedTestFiles s [''testFoo(org.ex.ThingTest)'', ''testBar(org.ex.ThingTest)''] ! 1)
   \<and> failedTestFiles s [] = []"
proof -
  have e: "extractClassName ''testFoo(org.ex.ThingTest)'' = ''org.ex.ThingTest''"
    "extractClassName ''org.ex.OtherTest.testBar'' = ''org.ex.OtherTest''"
    "extractClassName ''testBar(org.ex.ThingTest)'' = ''org.ex.ThingTest''"
    by code_simp+
  show ?thesis
    by (simp add: failedTestFiles_def testFileFor_def testFilePath_def e)
qed

theorem failedTestFiles_one_entry_per_failure_witness:
  "map path (failedTestFiles sampleState [''testFoo(org.ex.ThingTest)'', ''org.ex.OtherTest.testBar''])
     = [''/proj/src/test/java/org/ex/ThingTest.java'', ''/proj/src/test/java/org/ex/OtherTest.java'']
   \<and> length (failedTestFiles sampleState [''testFoo(org.ex.ThingTest)'', ''testBar(org.ex.ThingTest)'']) = 2"
proof -
  have p: "testFilePath sampleState ''testFoo(org.ex.ThingTest)'' = ''/proj/src/test/java/org/ex/ThingTest.java''"
          "testFilePath sampleState ''org.ex.OtherTest.testBar'' = ''/proj/src/test/java/org/ex/OtherTest.java''"
    by code_simp+
  show ?thesis
    using failedTestFiles_one_entry_per_failure [of sampleState "[''testFoo(org.ex.ThingTest)'', ''testBar(org.ex.ThingTest)'']"]
    by (simp add: failedTestFiles_def testFileFor_def p)
qed

text \<open>
  Claim C9: when the test file of a failed test does not exist, its entry has the derived
  path and empty content, the other entries are there as well, and the cycle goes on to
  write the session log, which comes after the extraction.
\<close>

theorem missing_test_file_empty_content:
  assumes "files s (testFilePath s test) = None"
  shows "testFileFor s test = \<lparr>path = testFilePath s test, content = []\<rparr>
       \<and> failedTestFiles s (ts @ test # us) ! length ts = \<lparr>path = testFilePath s test, content = []\<rparr>
       \<and> length (failedTestFiles s (ts @ test # us)) = length (ts @ test # us)
       \<and> (\<exists>entry more.
            trace (snd (generateAndRetest C out (ts @ test # us) s)) =
              trace s @ CollectFiles [path_join [projectRoot s, ''src/main'']] (extension s)
                        # concat (map (testFileEvents s) (ts @ test # us))
                      @ AppendFile (path_join [tmpDir s, ''session_log.txt'']) entry # more)"
proof -
  have "testFileFor s test = \<lparr>path = testFilePath s test, content = []\<rparr>"
    using assms by (simp add: testFileFor_def)
  moreover have "failedTestFiles s (ts @ test # us) ! length ts = testFileFor s test"
    by (simp add: failedTestFiles_def nth_append)
  ultimately show ?thesis
    using generateAndRetest_reaches_log [of C out "ts @ test # us" s]
    by (simp add: failedTestFiles_def)
qed

theorem missing_test_file_empty_content_witness:
  "files sampleState (testFilePath sampleState ''org.ex.OtherTest.testBar'') = None
   \<and> failedTestFiles sampleState [''testFoo(org.ex.ThingTest)'', ''org.ex.OtherTest.testBar''] ! 1
       = \<lparr>path = ''/proj/src/test/java/org/ex/OtherTest.java'', content = []\<rparr>"
proof -
  have p: "testFilePath sampleState ''org.ex.OtherTest.testBar'' = ''/proj/src/test/java/org/ex/OtherTest.java''"
    by code_simp
  have h: "files sampleState (testFilePath sampleState ''org.ex.OtherTest.testBar'') = None"
    unfolding p by (simp add: sampleState_def)
  show ?thesis
    using h missing_test_file_empty_content [OF h, of "[''testFoo(org.ex.ThingTest)'']" "[]" sampleCollab "[]"]
    by (simp add: p)
qed

subsection \<open>Backend selection and credentials\<close>

text \<open>
  Claim C8: for a model that the table does not map, \<^verbatim>\<open>selectAIClient\<close> logs a warning and
  returns a ChatGPT client; for a mapped model it returns, without a warning, a client of
  the family the table gives; selecting the same model again, with whatever key and
  state, gives a client of the same class.
\<close>

theorem selectAIClient_family:
  "(models m = None \<longrightarrow>
      selectAIClient apiKey m s =
        (ChatGPTClient apiKey m,
         emit [LoggerWarn ''Model not recognized, defaulting to ChatGPTClient.''] s))
   \<and> (\<forall>f. models m = Some f \<longrightarrow>
         familyOf (fst (selectAIClient apiKey m s)) = f \<and> snd (selectAIClient apiKey m s) = s)
   \<and> familyOf (fst (selectAIClient apiKey' m s')) = familyOf (fst (selectAIClient apiKey m s))"
proof -
  have a: "models m = None \<longrightarrow>
      selectAIClient apiKey m s =
        (ChatGPTClient apiKey m,
         emit [LoggerWarn ''Model not recognized, defaulting to ChatGPTClient.''] s)"
    by (simp add: selectAIClient_def)
  have b: "\<And>f k t. models m = Some f \<Longrightarrow>
         familyOf (fst (selectAIClient k m t)) = f \<and> snd (selectAIClient k m t) = t"
    subgoal for f k t by (cases f) (simp_all add: selectAIClient_def)
    done
  have c: "familyOf (fst (selectAIClient apiKey' m s')) = familyOf (fst (selectAIClient apiKey m s))"
  proof (cases "models m")
    case None
    then show ?thesis by (simp add: selectAIClient_def)
  next
    case (Some f)
    then show ?thesis using b [of f apiKey s] b [of f apiKey' s'] by simp
  qed
  show ?thesis using a b c by blast
qed

theorem selectAIClient_family_witness:
  "models ''llama-3'' = None
   \<and> fst (selectAIClient ''sk-1'' ''llama-3'' sampleState) = ChatGPTClient ''sk-1'' ''llama-3''
   \<and> trace (snd (selectAIClient ''sk-1'' ''llama-3'' sampleState))
       = [LoggerWarn ''Model not recognized, defaulting to ChatGPTClient.'']
   \<and> models ''claude-3-5-sonnet'' = Some Anthropic
   \<and> familyOf (fst (selectAIClient ''sk-2'' ''claude-3-5-sonnet'' sampleState)) = Anthropic"
proof -
  have n: "models ''llama-3'' = None" by (simp add: models_def)
  have a: "models ''claude-3-5-sonnet'' = Some Anthropic" by (simp add: models_def)
  show ?thesis
    using n a selectAIClient_family [of "''llama-3''" "''sk-1''" sampleState "''sk-1''" sampleState]
      selectAIClient_family [of "''claude-3-5-sonnet''" "''sk-2''" sampleState "''sk-2''" sampleState]
    by (simp add: sampleState_def)
qed

text \<open>
  Claim C7: when the family of the model has no API key (undefined or empty),
  \<^verbatim>\<open>getApiKeyForModel\<close> prints two error lines and exits with code 1, and \<^verbatim>\<open>run\<close> ends
  there: no file is changed, and no event that reads the project, runs its tests or
  collects context is added. A model change to such a model ends the same way, before
  its forced cycle.
\<close>

theorem missing_credential_exits_first:
  assumes "models m = Some f" and "apiKeys s f = None \<or> apiKeys s f = Some []"
  shows "getApiKeyForModel m s =
           (Exited 1,
            emit [ConsoleError (''Error: No API key found for '' @ familyName (Some f) @ '' model family.''),
                  ConsoleError ''Please set the appropriate environment variable.'',
                  ProcessExit 1] s)
       \<and> run C answers (s\<lparr>model := m\<rparr>) =
           (Exited 1,
            emit [ConsoleError (''Error: No API key found for '' @ familyName (Some f) @ '' model family.''),
                  ConsoleError ''Please set the appropriate environment variable.'',
                  ProcessExit 1] (s\<lparr>model := m\<rparr>))
       \<and> files (snd (run C answers (s\<lparr>model := m\<rparr>))) = files s
       \<and> filter touchesProject (trace (snd (run C answers (s\<lparr>model := m\<rparr>))))
           = filter touchesProject (trace s)
       \<and> (promptForModel modelChoice = Some m \<longrightarrow>
             handleModelChange C modelChoice s = (Exited 1, snd (getApiKeyForModel m s)))"
proof -
  have g: "\<And>t. apiKeys t = apiKeys s \<Longrightarrow> getApiKeyForModel m t = noApiKey (Some f) t"
    using assms by (auto simp: getApiKeyForModel_def Let_def)
  have r: "run C answers (s\<lparr>model := m\<rparr>) = noApiKey (Some f) (s\<lparr>model := m\<rparr>)"
    by (simp add: run_def g andThen_def noApiKey_def)
  have h: "promptForModel modelChoice = Some m \<longrightarrow>
             handleModelChange C modelChoice s = (Exited 1, snd (getApiKeyForModel m s))"
    by (simp add: handleModelChange_def g andThen_def noApiKey_def)
  show ?thesis
    unfolding r using h by (simp add: g noApiKey_def)
qed

theorem missing_credential_exits_first_witness:
  "models ''gemini-2'' = Some Gemini \<and> apiKeys sampleState Gemini = None
   \<and> fst (run sampleCollab [''c'', ''x''] (sampleState\<lparr>model := ''gemini-2''\<rparr>)) = Exited 1
   \<and> trace (snd (run sampleCollab [''c'', ''x''] (sampleState\<lparr>model := ''gemini-2''\<rparr>)))
       = [ConsoleError ''Error: No API key found for gemini model family.'',
          ConsoleError ''Please set the appropriate environment variable.'',
          ProcessExit 1]"
proof -
  have a: "models ''gemini-2'' = Some Gemini" by (simp add: models_def)
  have b: "apiKeys sampleState Gemini = None \<or> apiKeys sampleState Gemini = Some []"
    by (simp add: sampleState_def)
  show ?thesis
    using a b missing_credential_exits_first [OF a b, of sampleCollab "[''c'', ''x'']"]
    by (simp add: sampleState_def familyName_def emit_def)
qed

subsection \<open>The repair cycle\<close>

lemma performCodeGenerationCycle_passed_early:
  assumes "fst (runTests C (projectRoot s) (tmpDir s) (files s))"
    and "snd (runTests C (projectRoot s) (tmpDir s) (files s))
           (path_join [tmpDir s, ''test_output.txt'']) = Some out"
  shows "performCodeGenerationCycle C False s =
           (Returned JSUndefined,
            emit [RunTests (projectRoot s) (tmpDir s),
                  ReadFile (path_join [tmpDir s, ''test_output.txt''])]
              (s\<lparr>files := snd (runTests C (projectRoot s) (tmpDir s) (files s))\<rparr>))"
  using assms
  by (simp add: performCodeGenerationCycle_def Let_def andThen_def readFileSync_def emit_def)

text \<open>
  Claim C1, on the sample project with passing tests: a cycle that is not forced runs
  the tests, reads the report and stops, with no generation call and nothing applied,
  but what it returns is \<^verbatim>\<open>undefined\<close> and not \<^verbatim>\<open>true\<close>.
\<close>

theorem performCodeGenerationCycle_passing_returns_undefined:
  "fst (runTests sampleCollab (projectRoot passingState) (tmpDir passingState) (files passingState))
   \<and> fst (performCodeGenerationCycle sampleCollab False passingState) = Returned JSUndefined
   \<and> fst (performCodeGenerationCycle sampleCollab False passingState) \<noteq> Returned (JSBool True)
   \<and> trace (snd (performCodeGenerationCycle sampleCollab False passingState))
       = [RunTests ''/proj'' ''/work/tmp'', ReadFile ''/work/tmp/test_output.txt'']
   \<and> generateCalls (trace (snd (performCodeGenerationCycle sampleCollab False passingState))) = 0"
proof -
  have p: "path_join [tmpDir passingState, ''test_output.txt''] = ''/work/tmp/test_output.txt''"
    by code_simp
  have a: "fst (runTests sampleCollab (projectRoot passingState) (tmpDir passingState) (files passingState))"
    by (simp add: sampleCollab_def passingState_def sampleState_def)
  have b: "snd (runTests sampleCollab (projectRoot passingState) (tmpDir passingState) (files passingState))
            (path_join [tmpDir passingState, ''test_output.txt'']) = Some ''BUILD SUCCESSFUL''"
    unfolding p by (simp add: sampleCollab_def passingState_def sampleState_def)
  show ?thesis
    unfolding performCodeGenerationCycle_passed_early [OF a b] p
    using a by (simp add: generateCalls_def passingState_def sampleState_def)
qed

lemma cyclePrompt_hints:
  "accumulatedHints s \<noteq> [] \<Longrightarrow>
     \<exists>body. cyclePrompt C out fts s = body @ hintsLine (accumulatedHints s)"
  by (simp add: cyclePrompt_def renderPrompt_def Let_def hintsLine_def)

lemma generateAndRetest_hints [simp]:
  "accumulatedHints (snd (generateAndRetest C out fts s)) = accumulatedHints s"
  by (simp add: generateAndRetest_def Let_def andThen_def readFileSync_def split: option.splits)

lemma generateAndRetest_client [simp]:
  "client (snd (generateAndRetest C out fts s)) = client s"
  by (simp add: generateAndRetest_def Let_def andThen_def readFileSync_def split: option.splits)

lemma generateAndRetest_prompts:
  "generatedPrompts (trace (snd (generateAndRetest C out fts s))) =
     generatedPrompts (trace s) @ (if client s = None then [] else [cyclePrompt C out fts s])"
  by (simp add: generateAndRetest_def Let_def andThen_def readFileSync_def split: option.splits)

lemma generateAndRetest_outcome:
  "fst (generateAndRetest C out fts s) \<noteq> Blocked
   \<and> (\<forall>n. fst (generateAndRetest C out fts s) \<noteq> Exited n)
   \<and> (\<forall>v. fst (generateAndRetest C out fts s) = Returned v \<longrightarrow> client s \<noteq> None)"
  by (simp add: generateAndRetest_def Let_def andThen_def readFileSync_def split: option.splits)

lemma generateAndRetest_trace:
  "client s = Some cl \<Longrightarrow>
     \<exists>entry post.
       trace (snd (generateAndRetest C out fts s)) =
         trace s @ CollectFiles [path_join [projectRoot s, ''src/main'']] (extension s)
                   # concat (map (testFileEvents s) fts)
                 @ [AppendFile (path_join [tmpDir s, ''session_log.txt'']) entry,
                    GenerateCode cl (cyclePrompt C out fts s) (tmpDir s) (systemPrompt s)] @ post
       \<and> generateCalls post = 0"
  by (simp add: generateAndRetest_def Let_def andThen_def readFileSync_def generateCalls_def split: option.splits)

text \<open>
  Claim C3: a forced cycle of a runner with a client collects the files, writes the
  session log and calls \<^verbatim>\<open>generateCode\<close>, with no test run before that call, and makes
  exactly one such call, whatever the tests of the project would say.
\<close>

theorem forced_cycle_generates_once:
  assumes "client s = Some cl"
  shows "(\<exists>entry post.
            trace (snd (performCodeGenerationCycle C True s)) =
              trace s @ [CollectFiles [path_join [projectRoot s, ''src/main'']] (extension s),
                         AppendFile (path_join [tmpDir s, ''session_log.txt'']) entry,
                         GenerateCode cl (cyclePrompt C ''No test output yet.'' [] s)
                           (tmpDir s) (systemPrompt s)] @ post
            \<and> generateCalls post = 0)
       \<and> generateCalls (trace (snd (performCodeGenerationCycle C True s)))
           = generateCalls (trace s) + 1"
proof -
  have f: "performCodeGenerationCycle C True s = generateAndRetest C ''No test output yet.'' [] s"
    by (simp add: performCodeGenerationCycle_def)
  have "generateCalls (trace (snd (generateAndRetest C ''No test output yet.'' [] s)))
          = generateCalls (trace s) + 1"
    using assms by (simp add: generateCalls_def generateAndRetest_prompts)
  then show ?thesis
    unfolding f using generateAndRetest_trace [OF assms, of C "''No test output yet.''" "[]"]
    by simp
qed

theorem forced_cycle_generates_once_witness:
  "client passingState = Some (ChatGPTClient ''sk-1'' ''gpt-4o'')
   \<and> fst (runTests sampleCollab (projectRoot passingState) (tmpDir passingState) (files passingState))
   \<and> generateCalls (trace (snd (performCodeGenerationCycle sampleCollab True passingState))) = 1"
proof -
  have c: "client passingState = Some (ChatGPTClient ''sk-1'' ''gpt-4o'')"
    by (simp add: passingState_def sampleState_def)
  have a: "fst (runTests sampleCollab (projectRoot passingState) (tmpDir passingState) (files passingState))"
    by (simp add: sampleCollab_def passingState_def sampleState_def)
  have t: "generateCalls (trace passingState) = 0"
    by (simp add: generateCalls_def passingState_def sampleState_def)
  show ?thesis
    using c a forced_cycle_generates_once [OF c, of sampleCollab] by (simp add: t)
qed

subsection \<open>Hints\<close>

lemma readFileSync_fields [simp]:
  "accumulatedHints (snd (readFileSync p s)) = accumulatedHints s"
  "client (snd (readFileSync p s)) = client s"
  "trace (snd (readFileSync p s)) = trace s @ [ReadFile p]"
  by (simp_all add: readFileSync_def split: option.splits)

lemma andThen_cases:
  obtains (ret) v s1 where "r = (Returned v, s1)" "andThen r k = k v s1"
  | (stop) "fst r \<noteq> Blocked \<longrightarrow> fst (andThen r k) \<noteq> Blocked" "snd (andThen r k) = snd r"
      "\<And>v. fst (andThen r k) \<noteq> Returned v" "fst r = Blocked \<longrightarrow> fst (andThen r k) = Blocked"
proof (cases r)
  case (Pair out s1)
  then show ?thesis
    by (cases out) (auto simp: andThen_def intro: that)
qed

lemma cycle_hints [simp]:
  "accumulatedHints (snd (performCodeGenerationCycle C force s)) = accumulatedHints s"
  by (simp add: performCodeGenerationCycle_def Let_def andThen_def readFileSync_def
      split: option.splits)

lemma cycle_prompts:
  "\<exists>ps. generatedPrompts (trace (snd (performCodeGenerationCycle C force s)))
           = generatedPrompts (trace s) @ ps
       \<and> (accumulatedHints s \<noteq> [] \<longrightarrow> (\<forall>p\<in>set ps. suffix (hintsLine (accumulatedHints s)) p))"
proof -
  have g: "\<And>out fts t. accumulatedHints t = accumulatedHints s \<Longrightarrow>
      \<exists>ps. generatedPrompts (trace (snd (generateAndRetest C out fts t)))
           = generatedPrompts (trace t) @ ps
       \<and> (accumulatedHints s \<noteq> [] \<longrightarrow> (\<forall>p\<in>set ps. suffix (hintsLine (accumulatedHints s)) p))"
    subgoal for out fts t
      using cyclePrompt_hints [of t C out fts]
      by (auto simp: generateAndRetest_prompts suffix_def)
    done
  show ?thesis
  proof (cases force)
    case True
    then show ?thesis using g [of s] by (simp add: performCodeGenerationCycle_def)
  next
    case False
    define s1 where "s1 = emit [RunTests (projectRoot s) (tmpDir s)]
                    (s\<lparr>files := snd (runTests C (projectRoot s) (tmpDir s) (files s))\<rparr>)"
    define p where "p = path_join [tmpDir s, ''test_output.txt'']"
    show ?thesis
    proof (cases "files s1 p")
      case None
      then show ?thesis using False
        by (simp add: performCodeGenerationCycle_def Let_def andThen_def readFileSync_def
            s1_def p_def)
    next
      case (Some out)
      show ?thesis
      proof (cases "fst (runTests C (projectRoot s) (tmpDir s) (files s))")
        case True
        then show ?thesis using False Some
          by (simp add: performCodeGenerationCycle_def Let_def andThen_def readFileSync_def
              s1_def p_def)
      next
        case nopass: False
        define t where "t = emit [SummarizeAllTests (projectRoot s) (tmpDir s)] (emit [ReadFile p] s1)"
        have c: "performCodeGenerationCycle C force s =
                   generateAndRetest C out
                     (summarizeAllTests C (projectRoot s) (tmpDir s) (files (emit [ReadFile p] s1))) t"
          using False Some nopass
          by (simp add: performCodeGenerationCycle_def Let_def andThen_def readFileSync_def
              s1_def p_def t_def)
        have h: "accumulatedHints t = accumulatedHints s" by (simp add: t_def s1_def)
        have tr: "generatedPrompts (trace t) = generatedPrompts (trace s)"
          by (simp add: t_def s1_def)
        show ?thesis unfolding c using g [OF h] tr by simp
      qed
    qed
  qed
qed


lemma cycle_client [simp]:
  "client (snd (performCodeGenerationCycle C force s)) = client s"
  by (simp add: performCodeGenerationCycle_def Let_def andThen_def readFileSync_def
      split: option.splits)

lemma cycle_outcome:
  "fst (performCodeGenerationCycle C force s) \<noteq> Blocked"
  using generateAndRetest_outcome
  by (simp add: performCodeGenerationCycle_def Let_def andThen_def readFileSync_def
      split: option.splits)

lemma handleSingleIteration_snd [simp]:
  "snd (handleSingleIteration C force s) = snd (performCodeGenerationCycle C force s)"
  by (cases "performCodeGenerationCycle C force s" rule: prod.exhaust;
      cases "fst (performCodeGenerationCycle C force s)")
     (auto simp: handleSingleIteration_def andThen_def)

lemma handleSingleIteration_fst:
  "fst (handleSingleIteration C force s) \<noteq> Blocked"
  "fst (handleSingleIteration C force s) = Returned u \<Longrightarrow>
     \<exists>v. fst (performCodeGenerationCycle C force s) = Returned v"
  using cycle_outcome [of C force s]
  by (cases "performCodeGenerationCycle C force s" rule: prod.exhaust;
      cases "fst (performCodeGenerationCycle C force s)";
      auto simp: handleSingleIteration_def andThen_def)+

lemma forced_cycle_returned:
  assumes "fst (performCodeGenerationCycle C True s) = Returned v"
  shows "generatedPrompts (trace (snd (performCodeGenerationCycle C True s)))
           = generatedPrompts (trace s) @ [cyclePrompt C ''No test output yet.'' [] s]"
proof -
  have f: "performCodeGenerationCycle C True s = generateAndRetest C ''No test output yet.'' [] s"
    by (simp add: performCodeGenerationCycle_def)
  have "client s \<noteq> None" using assms generateAndRetest_outcome unfolding f by blast
  then show ?thesis unfolding f by (simp add: generateAndRetest_prompts)
qed

lemma handleHint_hints [simp]:
  "accumulatedHints (snd (handleHint C h s)) = accumulatedHints s @ (if h \<noteq> [] then [h] else [])"
  by (simp add: handleHint_def)

lemma handleHint_returned:
  assumes "handleHint C h s = (Returned u, s1)" and "h \<noteq> []"
  shows "accumulatedHints s1 = accumulatedHints s @ [h]
       \<and> (\<exists>body. last (generatedPrompts (trace s1)) = body @ hintsLine (accumulatedHints s @ [h]))"
proof -
  define s0 where "s0 = s\<lparr>accumulatedHints := accumulatedHints s @ [h]\<rparr>"
  have hh: "handleHint C h s = handleSingleIteration C True s0"
    using assms(2) by (simp add: handleHint_def s0_def)
  have s1: "s1 = snd (performCodeGenerationCycle C True s0)"
    using assms(1) unfolding hh by (metis handleSingleIteration_snd snd_conv)
  have "fst (handleSingleIteration C True s0) = Returned u"
    using assms(1) unfolding hh by simp
  then obtain v where "fst (performCodeGenerationCycle C True s0) = Returned v"
    using handleSingleIteration_fst(2) by blast
  then have pr: "generatedPrompts (trace s1)
           = generatedPrompts (trace s0) @ [cyclePrompt C ''No test output yet.'' [] s0]"
    unfolding s1 by (rule forced_cycle_returned)
  have "accumulatedHints s0 \<noteq> []" by (simp add: s0_def)
  then obtain body where
    "cyclePrompt C ''No test output yet.'' [] s0 = body @ hintsLine (accumulatedHints s0)"
    using cyclePrompt_hints by blast
  then show ?thesis unfolding pr by (simp add: s1 s0_def)
qed

lemma handleHint_not_Blocked: "fst (handleHint C h s) \<noteq> Blocked"
  by (simp add: handleHint_def handleSingleIteration_fst(1))

lemma choice_h: "toLowerCase (js_trim ''h'') = ''h''"
  by code_simp

lemma loop_hint_step:
  "startInteractiveLoop C (hintScript (h # hs)) s =
     andThen (handleHint C h s) (\<lambda>u s'. startInteractiveLoop C (hintScript hs) s')"
  by (simp add: hintScript_def choice_h)

lemma hint_loop:
  assumes "\<forall>h\<in>set hs. h \<noteq> []" and "hs \<noteq> []"
    and "startInteractiveLoop C (hintScript hs) s = (Blocked, s')"
  shows "accumulatedHints s' = accumulatedHints s @ hs
       \<and> (\<exists>body. last (generatedPrompts (trace s')) = body @ hintsLine (accumulatedHints s @ hs))"
  using assms
proof (induction hs arbitrary: s)
  case Nil
  then show ?case by simp
next
  case (Cons h hs)
  have hne: "h \<noteq> []" using Cons.prems(1) by simp
  let ?k = "\<lambda>(u::unit) s'. startInteractiveLoop C (hintScript hs) s'"
  have step: "andThen (handleHint C h s) ?k = (Blocked, s')"
    using Cons.prems(3) unfolding loop_hint_step .
  show ?case
  proof (cases "handleHint C h s" ?k rule: andThen_cases)
    case (ret v s1)
    then have rest: "startInteractiveLoop C (hintScript hs) s1 = (Blocked, s')"
      using step by simp
    note one = handleHint_returned [OF ret(1) hne]
    show ?thesis
    proof (cases "hs = []")
      case True
      then have "s' = s1" using rest by (simp add: hintScript_def)
      then show ?thesis using one True by simp
    next
      case False
      have "\<forall>h\<in>set hs. h \<noteq> []" using Cons.prems(1) by simp
      from Cons.IH [OF this False rest] show ?thesis using one by simp
    qed
  next
    case stop
    then show ?thesis using step handleHint_not_Blocked [of C h s] by simp
  qed
qed


lemma andThen_preserve:
  assumes "P (snd r)" and "\<And>v s1. P s1 \<Longrightarrow> P (snd (k v s1))"
  shows "P (snd (andThen r k))"
proof (cases r)
  case (Pair out s1)
  then show ?thesis using assms by (cases out) (auto simp: andThen_def)
qed

lemma noApiKey_hints [simp]: "accumulatedHints (snd (noApiKey f s)) = accumulatedHints s"
  by (simp add: noApiKey_def)

lemma getApiKeyForModel_hints [simp]:
  "accumulatedHints (snd (getApiKeyForModel m s)) = accumulatedHints s"
  by (simp add: getApiKeyForModel_def Let_def split: option.splits)

lemma selectAIClient_hints [simp]:
  "accumulatedHints (snd (selectAIClient k m s)) = accumulatedHints s"
  by (simp add: selectAIClient_def Let_def)

lemma handleModelChange_hints:
  "accumulatedHints (snd (handleModelChange C choice s)) = accumulatedHints s"
proof (cases "promptForModel choice")
  case None
  then show ?thesis by (simp add: handleModelChange_def)
next
  case (Some newModel)
  have "(\<lambda>t. accumulatedHints t = accumulatedHints s)
          (snd (andThen (getApiKeyForModel newModel s)
            (\<lambda>apiKey s1.
               handleSingleIteration C True
                 ((snd (selectAIClient apiKey newModel s1))
                    \<lparr>client := Some (fst (selectAIClient apiKey newModel s1))\<rparr>))))"
    by (rule andThen_preserve) simp_all
  then show ?thesis using Some by (simp add: handleModelChange_def)
qed

lemma onChanges_hints:
  "accumulatedHints (snd (onChanges C changes s)) = accumulatedHints s"
proof (induction changes arbitrary: s)
  case Nil
  then show ?case by simp
next
  case (Cons filePath later)
  have "(\<lambda>t. accumulatedHints t = accumulatedHints s)
          (snd (andThen (handleSingleIteration C True s) (\<lambda>u s'. onChanges C later s')))"
    by (rule andThen_preserve) (simp_all add: Cons.IH)
  then show ?case by simp
qed

lemma watchCode_hints [simp]: "accumulatedHints (watchCode s) = accumulatedHints s"
  by (simp add: watchCode_def)

lemma loop_hints_prefix:
  "prefix H (accumulatedHints s) \<Longrightarrow>
     prefix H (accumulatedHints (snd (startInteractiveLoop C script s)))"
proof (induction "length script" arbitrary: script s rule: less_induct)
  case less
  show ?case
  proof (cases script)
    case Nil
    then show ?thesis using less.prems by simp
  next
    case (Cons answer rest)
    have IH: "\<And>sc t. length sc < length script \<Longrightarrow> prefix H (accumulatedHints t) \<Longrightarrow>
                prefix H (accumulatedHints (snd (startInteractiveLoop C sc t)))"
      using less.hyps by blast
    have rest: "length rest < length script" using Cons by simp
    define userChoice where "userChoice = toLowerCase (js_trim answer)"
    have c: "prefix H (accumulatedHints (snd
               (andThen (handleSingleIteration C False s)
                  (\<lambda>u s'. startInteractiveLoop C rest s'))))"
      by (rule andThen_preserve) (simp_all add: less.prems IH [OF rest])
    have h: "\<And>userFeedback rest'. rest = userFeedback # rest' \<Longrightarrow>
               prefix H (accumulatedHints (snd
                 (andThen (handleHint C userFeedback s)
                    (\<lambda>u s'. startInteractiveLoop C rest' s'))))"
    proof -
      fix userFeedback rest'
      assume r: "rest = userFeedback # rest'"
      then have l: "length rest' < length script" using rest by simp
      show "prefix H (accumulatedHints (snd
                 (andThen (handleHint C userFeedback s)
                    (\<lambda>u s'. startInteractiveLoop C rest' s'))))"
      proof (rule andThen_preserve)
        show "prefix H (accumulatedHints (snd (handleHint C userFeedback s)))"
          using less.prems by simp
      next
        fix v :: unit and s1 :: state
        assume "prefix H (accumulatedHints s1)"
        then show "prefix H (accumulatedHints (snd (startInteractiveLoop C rest' s1)))"
          by (rule IH [OF l])
      qed
    qed
    have m: "\<And>modelChoice rest'. rest = modelChoice # rest' \<Longrightarrow>
               prefix H (accumulatedHints (snd
                 (andThen (handleModelChange C modelChoice s)
                    (\<lambda>u s'. startInteractiveLoop C rest' s'))))"
    proof -
      fix modelChoice rest'
      assume r: "rest = modelChoice # rest'"
      then have l: "length rest' < length script" using rest by simp
      show "prefix H (accumulatedHints (snd
                 (andThen (handleModelChange C modelChoice s)
                    (\<lambda>u s'. startInteractiveLoop C rest' s'))))"
      proof (rule andThen_preserve)
        show "prefix H (accumulatedHints (snd (handleModelChange C modelChoice s)))"
          using less.prems by (simp add: handleModelChange_hints)
      next
        fix v :: unit and s1 :: state
        assume "prefix H (accumulatedHints s1)"
        then show "prefix H (accumulatedHints (snd (startInteractiveLoop C rest' s1)))"
          by (rule IH [OF l])
      qed
    qed
    have w: "prefix H (accumulatedHints (watchCode s))"
      and x: "prefix H (accumulatedHints (emit [ProcessExit 0] s))"
      using less.prems by simp_all
    have e: "startInteractiveLoop C script s =
       (if userChoice = ''c'' \<or> userChoice = [] then
           andThen (handleSingleIteration C False s) (\<lambda>u s'. startInteractiveLoop C rest s')
         else if userChoice = ''h'' then
           (case rest of
              [] \<Rightarrow> (Blocked, s)
            | userFeedback # rest' \<Rightarrow>
                andThen (handleHint C userFeedback s) (\<lambda>u s'. startInteractiveLoop C rest' s'))
         else if userChoice = ''m'' then
           (case rest of
              [] \<Rightarrow> (Blocked, s)
            | modelChoice # rest' \<Rightarrow>
                andThen (handleModelChange C modelChoice s)
                  (\<lambda>u s'. startInteractiveLoop C rest' s'))
         else if userChoice = ''e'' \<or> userChoice = ''x'' then
           (Exited 0, emit [ProcessExit 0] s)
         else if userChoice = ''w'' then (Returned (), watchCode s)
         else startInteractiveLoop C rest s)"
      unfolding Cons userChoice_def by (simp only: startInteractiveLoop.simps Let_def)
    show ?thesis
    proof (cases rest)
      case Nil
      show ?thesis unfolding e using c w x less.prems IH [OF rest, of s]
        by (simp only: Nil list.case snd_conv split: if_split) blast
    next
      case (Cons a rest')
      show ?thesis unfolding e using c w x less.prems IH [OF rest, of s] h [OF Cons] m [OF Cons]
        by (simp only: Cons list.case snd_conv split: if_split) blast
    qed
  qed
qed

lemma run_hints_prefix:
  "prefix (accumulatedHints s) (accumulatedHints (snd (run C script s)))"
  unfolding run_def Let_def
proof (rule andThen_preserve, goal_cases)
  case 1
  show ?case by simp
next
  case (2 apiKey s1)
  show ?case
  proof (rule andThen_preserve, goal_cases)
    case 1
    show ?case using 2 by simp
  next
    case (2 gradle s6)
    show ?case
    proof (rule andThen_preserve, goal_cases)
      case 1
      show ?case using 2 by simp
    next
      case (2 u s7)
      then show ?case by (rule loop_hints_prefix)
    qed
  qed
qed

text \<open>
  Claim C2 does not hold as stated: a hint submission that is empty is not kept, so
  after the submissions \<^verbatim>\<open>a\<close>, the empty string and \<^verbatim>\<open>b\<close> the hints are \<^verbatim>\<open>a\<close> and \<^verbatim>\<open>b\<close>:
  the last prompt neither ends with nor contains the three strings joined, and ends with
  the hint line of \<^verbatim>\<open>a\<close> and \<^verbatim>\<open>b\<close>.
\<close>

theorem empty_hint_not_accumulated_counterexample:
  "accumulatedHints (snd (startInteractiveLoop sampleCollab (hintScript [''a'', [], ''b'']) sampleState))
     = [''a'', ''b'']
   \<and> \<not> suffix (hintsLine [''a'', [], ''b''])
         (last (generatedPrompts (trace (snd
            (startInteractiveLoop sampleCollab (hintScript [''a'', [], ''b'']) sampleState)))))
   \<and> \<not> sublist (js_join ''; '' [''a'', [], ''b''])
         (last (generatedPrompts (trace (snd
            (startInteractiveLoop sampleCollab (hintScript [''a'', [], ''b'']) sampleState)))))
   \<and> suffix (hintsLine [''a'', ''b''])
         (last (generatedPrompts (trace (snd
            (startInteractiveLoop sampleCollab (hintScript [''a'', [], ''b'']) sampleState)))))"
  by code_simp

text \<open>
  Claim C2, amended: after the submission of the non-empty hints \<open>hs\<close>, one after the
  other, in a session that is still waiting for input, the hints of the runner are the
  earlier ones followed by \<open>hs\<close>, and the last prompt sent ends with the hint line of
  all of them, in order, joined by \<^verbatim>\<open>; \<close>. Every prompt of a later cycle ends with the
  hint line of these hints and of those added since. No cycle, model change or file
  change alters the hints, and the interactive loop and \<^verbatim>\<open>run\<close> only add to them.
\<close>

theorem hints_accumulate:
  assumes "\<forall>h\<in>set hs. h \<noteq> []" and "hs \<noteq> []"
    and "startInteractiveLoop C (hintScript hs) s = (Blocked, s')"
  shows "accumulatedHints s' = accumulatedHints s @ hs
       \<and> (\<exists>body. last (generatedPrompts (trace s')) = body @ hintsLine (accumulatedHints s @ hs))
       \<and> (accumulatedHints t = accumulatedHints s' @ later \<longrightarrow>
            (\<exists>ps. generatedPrompts (trace (snd (performCodeGenerationCycle C force t)))
                     = generatedPrompts (trace t) @ ps
                 \<and> (\<forall>p\<in>set ps. suffix (hintsLine (accumulatedHints s @ hs @ later)) p)))
       \<and> accumulatedHints (snd (performCodeGenerationCycle C force t)) = accumulatedHints t
       \<and> accumulatedHints (snd (handleModelChange C modelChoice t)) = accumulatedHints t
       \<and> accumulatedHints (snd (onChanges C changes t)) = accumulatedHints t
       \<and> prefix (accumulatedHints t) (accumulatedHints (snd (startInteractiveLoop C script t)))
       \<and> prefix (accumulatedHints t) (accumulatedHints (snd (run C script t)))"
proof -
  note a = hint_loop [OF assms]
  have b: "accumulatedHints t = accumulatedHints s' @ later \<longrightarrow>
            (\<exists>ps. generatedPrompts (trace (snd (performCodeGenerationCycle C force t)))
                     = generatedPrompts (trace t) @ ps
                 \<and> (\<forall>p\<in>set ps. suffix (hintsLine (accumulatedHints s @ hs @ later)) p))"
  proof
    assume t: "accumulatedHints t = accumulatedHints s' @ later"
    then have ne: "accumulatedHints t \<noteq> []" using a assms(2) by simp
    have eq: "accumulatedHints t = accumulatedHints s @ hs @ later" using t a by simp
    show "\<exists>ps. generatedPrompts (trace (snd (performCodeGenerationCycle C force t)))
                     = generatedPrompts (trace t) @ ps
                 \<and> (\<forall>p\<in>set ps. suffix (hintsLine (accumulatedHints s @ hs @ later)) p)"
      using cycle_prompts [of C force t] ne unfolding eq by simp
  qed
  have c: "prefix (accumulatedHints t) (accumulatedHints (snd (startInteractiveLoop C script t)))"
    by (rule loop_hints_prefix) simp
  show ?thesis
    using a b c run_hints_prefix [of t C script]
    by (simp add: handleModelChange_hints onChanges_hints)
qed

theorem hints_accumulate_witness:
  "fst (startInteractiveLoop sampleCollab (hintScript [''use a map'', ''keep the API'']) sampleState)
     = Blocked
   \<and> accumulatedHints (snd (startInteractiveLoop sampleCollab
        (hintScript [''use a map'', ''keep the API'']) sampleState))
       = [''use a map'', ''keep the API'']
   \<and> (\<exists>body. last (generatedPrompts (trace (snd (startInteractiveLoop sampleCollab
        (hintScript [''use a map'', ''keep the API'']) sampleState))))
         = body @ hintsLine [''use a map'', ''keep the API''])"
proof -
  define r where
    "r = startInteractiveLoop sampleCollab (hintScript [''use a map'', ''keep the API'']) sampleState"
  have b: "fst r = Blocked" unfolding r_def by code_simp
  then have e: "startInteractiveLoop sampleCollab (hintScript [''use a map'', ''keep the API''])
                  sampleState = (Blocked, snd r)"
    unfolding r_def by (metis prod.collapse)
  have h: "\<forall>h\<in>set [''use a map'', ''keep the API'']. h \<noteq> []" by simp
  have n: "[''use a map'', ''keep the API''] \<noteq> []" by simp
  have s0: "accumulatedHints sampleState = []" by (simp add: sampleState_def)
  show ?thesis
    using b hints_accumulate [OF h n e, of sampleState "[]" True "''1''" "[]" "[]"]
    unfolding r_def [symmetric] s0 by simp
qed

end
